theory Spec2Isabelle
  imports Main
begin

section \<open>Values, exceptions and the collaborators outside the two source files\<close>

text \<open>
  The two files under verification are \<^verbatim>\<open>spfy/mixins/asynch/player.py\<close> (class
  \<^verbatim>\<open>PlayerMixin\<close>) and \<^verbatim>\<open>spfy/wrapper.py\<close> (class \<^verbatim>\<open>Spotify\<close>). Both use the enum
  \<^verbatim>\<open>VolumeBackend\<close> and the volume-control classes of \<^verbatim>\<open>spfy/volume.py\<close>, whose
  bodies are not part of the sources. The enum's members are read off their uses; the
  enum's values, the outcome of each constructor and of each volume primitive are
  parameters of the model (record \<open>world\<close>).
\<close>

datatype VolumeBackend = APPLESCRIPT | LINUX | ALSA | SPOTIFY

datatype vc_class =
    ApplescriptVolumeControl
  | LinuxVolumeControlAsync
  | AlsaVolumeControl
  | SpotifyVolumeControlAsync
  | LinuxVolumeControl
  | SpotifyVolumeControl

text \<open>
  Exceptions. \<open>ValueError\<close>, \<open>KeyError\<close>, \<open>AssertionError\<close>, \<open>AttributeError\<close> and
  \<open>TypeError\<close> are the ones the two files raise themselves (a \<^verbatim>\<open>raise\<close> or the call
  of the enum, a subscript, an \<^verbatim>\<open>assert\<close>, an attribute of \<^verbatim>\<open>None\<close>, a containment
  test of the enum on a string); \<open>Failure\<close> is any exception that comes out of a
  collaborator.
\<close>

datatype exn =
    ValueError string
  | KeyError
  | AssertionError
  | AttributeError string
  | TypeError
  | Failure string

text \<open>
  A volume-control object: its class, its identity (the address the allocator gave it)
  and, for the remote backend, the device it was constructed for.
\<close>

record volume_control =
  vc_class :: vc_class
  vc_id :: nat
  vc_device :: "string option"

text \<open>What a method hands back to its caller.\<close>

datatype pyval =
    PyNone
  | PyInt int
  | PyTask nat
  | PyResult string

record fade_kwargs =
  fk_limit :: int
  fk_start :: int
  fk_step :: int
  fk_seconds :: int
  fk_force :: bool

text \<open>
  Everything observable that the two files do to the outside: reads and writes of a
  backend's volume, the three ways a ramp is handed over for execution, and the calls
  of the synchronous wrapper.
\<close>

datatype event =
    GetVolume volume_control
  | SetVolume volume_control int
  | SetVolumeAsync volume_control int bool int
  | CreateTask nat volume_control fade_kwargs
  | AwaitFade volume_control fade_kwargs
  | RunInExecutor volume_control fade_kwargs
  | SwitchAudioDevice volume_control string
  | ThreadStart volume_control "(string \<times> int) list"
  | StartPlayback "string list" "string option"

text \<open>A device as the remote client resolves it; only its \<^verbatim>\<open>id\<close> is read here.\<close>

datatype device_obj = Device "string option"

text \<open>
  What \<^verbatim>\<open>x in VolumeBackend\<close> does for a string \<open>x\<close> depends on the interpreter: up to
  Python 3.7 it is false, from 3.8 to 3.11 it raises \<^verbatim>\<open>TypeError\<close>, from 3.12 on it is
  true exactly for the value of a member.
\<close>

datatype str_containment = StrIsNoMember | StrRaisesTypeError | StrMatchesValue

text \<open>
  The world around the two files. \<open>str_in_enum\<close> is the interpreter's containment test. \<open>sys_platform\<close> and \<open>uname_sysname\<close> are what
  \<^verbatim>\<open>sys.platform\<close> and \<^verbatim>\<open>os.uname().sysname\<close> give; \<open>enum_value\<close> is the \<^verbatim>\<open>value\<close>
  of each enum member; \<open>ctor_raises\<close> says which constructors raise, and what. The other
  fields are the answers of the collaborators, each given the events so far: reading
  and writing a backend's \<^verbatim>\<open>volume\<close>, the remote backend's \<^verbatim>\<open>set_volume\<close>, a ramp
  that is awaited, the remote client's \<^verbatim>\<open>get_device\<close> and \<^verbatim>\<open>start_playback\<close>, and
  the desktop backend's \<^verbatim>\<open>switch_audio_device\<close>.
\<close>

record world =
  sys_platform :: string
  uname_sysname :: string
  enum_value :: "VolumeBackend \<Rightarrow> string"
  ctor_raises :: "vc_class \<Rightarrow> exn option"
  read_volume :: "volume_control \<Rightarrow> event list \<Rightarrow> exn + int"
  write_volume :: "volume_control \<Rightarrow> int \<Rightarrow> event list \<Rightarrow> exn option"
  set_volume_result ::
    "volume_control \<Rightarrow> int \<Rightarrow> bool \<Rightarrow> int \<Rightarrow> event list \<Rightarrow> exn + pyval"
  fade_raises :: "volume_control \<Rightarrow> fade_kwargs \<Rightarrow> event list \<Rightarrow> exn option"
  get_device :: "string option \<Rightarrow> exn + device_obj option"
  switch_raises :: "volume_control \<Rightarrow> string \<Rightarrow> event list \<Rightarrow> exn option"
  start_playback_result :: "string list \<Rightarrow> string option \<Rightarrow> event list \<Rightarrow> exn + pyval"
  str_in_enum :: str_containment

section \<open>Python truthiness\<close>

definition truthy_str :: "string option \<Rightarrow> bool" where
  "truthy_str x = (case x of None \<Rightarrow> False | Some s \<Rightarrow> s \<noteq> [])"

text \<open>The volume-control classes are plain objects: an instance is truthy, \<^verbatim>\<open>None\<close> is not.\<close>

definition truthy_vc :: "volume_control option \<Rightarrow> bool" where
  "truthy_vc x = (x \<noteq> None)"

text \<open>\<^verbatim>\<open>first(iterable)\<close> of the \<^verbatim>\<open>first\<close> package: the first truthy element, else \<^verbatim>\<open>None\<close>.\<close>

fun first :: "volume_control option list \<Rightarrow> volume_control option" where
  "first [] = None"
| "first (x # xs) = (if truthy_vc x then x else first xs)"

section \<open>The session object of \<^verbatim>\<open>PlayerMixin\<close>\<close>

text \<open>
  The fields set by \<^verbatim>\<open>__init__\<close>, one cache per \<^verbatim>\<open>cached_property\<close> (\<open>None\<close>: not yet
  computed), the allocator's next free address and the trace of events so far.
\<close>

record session =
  device :: "string option"
  alsa_device :: "string option"
  alsa_mixer :: "string option"
  speaker :: "string option"
  c_applescript :: "volume_control option option"
  c_linux :: "volume_control option option"
  c_alsa :: "volume_control option option"
  c_spotify :: "volume_control option"
  c_backends :: "(VolumeBackend \<times> volume_control option) list option"
  c_optimal :: "volume_control option option"
  next_obj :: nat
  trace :: "event list"

type_synonym 'a run = "session \<Rightarrow> (exn + 'a) \<times> session"

definition init_session ::
  "string option \<Rightarrow> string option \<Rightarrow> string option \<Rightarrow> string option \<Rightarrow> session" where
  "init_session dev adev amix spk =
     \<lparr>device = dev, alsa_device = adev, alsa_mixer = amix, speaker = spk,
      c_applescript = None, c_linux = None, c_alsa = None, c_spotify = None,
      c_backends = None, c_optimal = None, next_obj = 0, trace = []\<rparr>"

text \<open>Calling a constructor: it raises, or a new object is allocated.\<close>

definition construct :: "world \<Rightarrow> vc_class \<Rightarrow> string option \<Rightarrow> volume_control run" where
  "construct w cls dev s =
     (case ctor_raises w cls of
        Some e \<Rightarrow> (Inl e, s)
      | None \<Rightarrow>
          (Inr \<lparr>vc_class = cls, vc_id = next_obj s, vc_device = dev\<rparr>,
           s\<lparr>next_obj := Suc (next_obj s)\<rparr>))"

text \<open>
  The body shared by the three guarded properties:
  \<^verbatim>\<open>try: if sys.platform != p: return None; return C(...)  except: return None\<close>.
  The properties keep their names without the leading underscore, which a constant's
  name cannot start with.
\<close>

definition guarded_ctor :: "world \<Rightarrow> string \<Rightarrow> vc_class \<Rightarrow> volume_control option run" where
  "guarded_ctor w p cls s =
     (if sys_platform w \<noteq> p then (Inr None, s)
      else (case construct w cls None s of
              (Inl e, s') \<Rightarrow> (Inr None, s')
            | (Inr v, s') \<Rightarrow> (Inr (Some v), s')))"

definition applescript_volume_control :: "world \<Rightarrow> volume_control option run" where
  "applescript_volume_control w s =
     (case c_applescript s of
        Some v \<Rightarrow> (Inr v, s)
      | None \<Rightarrow>
          (case guarded_ctor w ''darwin'' ApplescriptVolumeControl s of
             (Inl e, s') \<Rightarrow> (Inl e, s')
           | (Inr v, s') \<Rightarrow> (Inr v, s'\<lparr>c_applescript := Some v\<rparr>)))"

definition linux_volume_control :: "world \<Rightarrow> volume_control option run" where
  "linux_volume_control w s =
     (case c_linux s of
        Some v \<Rightarrow> (Inr v, s)
      | None \<Rightarrow>
          (case guarded_ctor w ''linux'' LinuxVolumeControlAsync s of
             (Inl e, s') \<Rightarrow> (Inl e, s')
           | (Inr v, s') \<Rightarrow> (Inr v, s'\<lparr>c_linux := Some v\<rparr>)))"

definition alsa_volume_control :: "world \<Rightarrow> volume_control option run" where
  "alsa_volume_control w s =
     (case c_alsa s of
        Some v \<Rightarrow> (Inr v, s)
      | None \<Rightarrow>
          (case guarded_ctor w ''linux'' AlsaVolumeControl s of
             (Inl e, s') \<Rightarrow> (Inl e, s')
           | (Inr v, s') \<Rightarrow> (Inr v, s'\<lparr>c_alsa := Some v\<rparr>)))"

text \<open>The remote backend's property has no guard: a raising constructor propagates.\<close>

definition spotify_volume_control :: "world \<Rightarrow> volume_control run" where
  "spotify_volume_control w s =
     (case c_spotify s of
        Some v \<Rightarrow> (Inr v, s)
      | None \<Rightarrow>
          (case construct w SpotifyVolumeControlAsync (device s) s of
             (Inl e, s') \<Rightarrow> (Inl e, s')
           | (Inr v, s') \<Rightarrow> (Inr v, s'\<lparr>c_spotify := Some v\<rparr>)))"

text \<open>
  \<^verbatim>\<open>_backends\<close>: the ordered dictionary, its four values evaluated in the order written.
\<close>

definition backends :: "world \<Rightarrow> (VolumeBackend \<times> volume_control option) list run" where
  "backends w s =
     (case c_backends s of
        Some m \<Rightarrow> (Inr m, s)
      | None \<Rightarrow>
          (case applescript_volume_control w s of
             (Inl e, s1) \<Rightarrow> (Inl e, s1)
           | (Inr a, s1) \<Rightarrow>
          (case linux_volume_control w s1 of
             (Inl e, s2) \<Rightarrow> (Inl e, s2)
           | (Inr l, s2) \<Rightarrow>
          (case alsa_volume_control w s2 of
             (Inl e, s3) \<Rightarrow> (Inl e, s3)
           | (Inr al, s3) \<Rightarrow>
          (case spotify_volume_control w s3 of
             (Inl e, s4) \<Rightarrow> (Inl e, s4)
           | (Inr sp, s4) \<Rightarrow>
               (let m = [(APPLESCRIPT, a), (LINUX, l), (ALSA, al), (SPOTIFY, Some sp)]
                in (Inr m, s4\<lparr>c_backends := Some m\<rparr>)))))))"

definition optimal_backend :: "world \<Rightarrow> volume_control option run" where
  "optimal_backend w s =
     (case c_optimal s of
        Some v \<Rightarrow> (Inr v, s)
      | None \<Rightarrow>
          (case backends w s of
             (Inl e, s') \<Rightarrow> (Inl e, s')
           | (Inr m, s') \<Rightarrow>
               (let v = first (map snd m) in (Inr v, s'\<lparr>c_optimal := Some v\<rparr>))))"

section \<open>Resolving a backend\<close>

text \<open>
  A caller names a backend by an enum member or by a member's value (a string).
  \<^verbatim>\<open>VolumeBackend(x)\<close> returns a member unchanged, looks a value up, and raises
  \<^verbatim>\<open>ValueError\<close> for anything else. In \<^verbatim>\<open>self._backends[VolumeBackend(backend)]\<close> the
  dictionary is evaluated before the subscript. A member is truthy, a string is truthy
  unless empty.
\<close>

datatype backend_arg = Member VolumeBackend | Value string

definition truthy_backend :: "backend_arg option \<Rightarrow> bool" where
  "truthy_backend b =
     (case b of None \<Rightarrow> False | Some (Member k) \<Rightarrow> True | Some (Value v) \<Rightarrow> v \<noteq> [])"

definition members :: "VolumeBackend list" where
  "members = [APPLESCRIPT, LINUX, ALSA, SPOTIFY]"

definition VolumeBackend_call :: "world \<Rightarrow> backend_arg \<Rightarrow> exn + VolumeBackend" where
  "VolumeBackend_call w b =
     (case b of
        Member k \<Rightarrow> Inr k
      | Value v \<Rightarrow>
          (case filter (\<lambda>k. enum_value w k = v) members of
             [] \<Rightarrow>
               Inl (ValueError (CHR 0x27 # v @ CHR 0x27 # '' is not a valid VolumeBackend''))
           | k # _ \<Rightarrow> Inr k))"

definition not_available :: exn where
  "not_available = ValueError ''Backend None is not available on this system''"

definition backend ::
  "world \<Rightarrow> backend_arg option \<Rightarrow> string option \<Rightarrow> volume_control option run" where
  "backend w b dev s =
     (case b of
        None \<Rightarrow> optimal_backend w s
      | Some arg \<Rightarrow>
          if \<not> truthy_backend b then optimal_backend w s
          else
            (case backends w s of
               (Inl e, s1) \<Rightarrow> (Inl e, s1)
             | (Inr m, s1) \<Rightarrow>
            (case VolumeBackend_call w arg of
               Inl e \<Rightarrow> (Inl e, s1)
             | Inr k \<Rightarrow>
            (case map_of m k of
               None \<Rightarrow> (Inl KeyError, s1)
             | Some volume_backend \<Rightarrow>
                 (case volume_backend of
                    None \<Rightarrow> (Inl not_available, s1)
                  | Some vb \<Rightarrow>
                      if vc_class vb = SpotifyVolumeControlAsync \<and> truthy_str dev
                         \<and> dev \<noteq> device s1
                      then (case construct w SpotifyVolumeControlAsync dev s1 of
                              (Inl e, s2) \<Rightarrow> (Inl e, s2)
                            | (Inr v, s2) \<Rightarrow> (Inr (Some v), s2))
                      else (Inr (Some vb), s1))))))"

section \<open>Changing the volume\<close>

text \<open>
  The primitives of a backend. Each call is recorded in the trace; what it returns or
  raises is the world's answer, given the events before it. \<open>get_volume\<close> is the
  \<^verbatim>\<open>volume\<close> property read (awaited as \<^verbatim>\<open>volume()\<close> on the remote backend),
  \<open>put_volume\<close> the \<^verbatim>\<open>volume\<close> property write, \<open>set_volume\<close> the remote backend's
  awaited \<^verbatim>\<open>set_volume(v, fade=..., fade_seconds=...)\<close>.
\<close>

definition get_volume :: "world \<Rightarrow> volume_control \<Rightarrow> int run" where
  "get_volume w vb s = (read_volume w vb (trace s), s\<lparr>trace := trace s @ [GetVolume vb]\<rparr>)"

definition put_volume :: "world \<Rightarrow> volume_control \<Rightarrow> int \<Rightarrow> unit run" where
  "put_volume w vb v s =
     (case write_volume w vb v (trace s) of Some e \<Rightarrow> Inl e | None \<Rightarrow> Inr (),
      s\<lparr>trace := trace s @ [SetVolume vb v]\<rparr>)"

definition set_volume :: "world \<Rightarrow> volume_control \<Rightarrow> int \<Rightarrow> bool \<Rightarrow> int \<Rightarrow> pyval run" where
  "set_volume w vb v fd fade_seconds s =
     (set_volume_result w vb v fd fade_seconds (trace s),
      s\<lparr>trace := trace s @ [SetVolumeAsync vb v fd fade_seconds]\<rparr>)"

definition none_has_no_volume :: exn where
  "none_has_no_volume = AttributeError ''volume''"

text \<open>
  \<^verbatim>\<open>change_volume(by, to, backend, device, fade, fade_seconds)\<close>. The volume-control
  classes are taken to be unrelated (no one a subclass of another), so \<^verbatim>\<open>isinstance\<close>
  is a test of the object's class. A backend that resolved to \<^verbatim>\<open>None\<close> has no
  \<^verbatim>\<open>volume\<close> attribute.
\<close>

definition change_volume ::
  "world \<Rightarrow> int \<Rightarrow> int option \<Rightarrow> backend_arg option \<Rightarrow> string option \<Rightarrow> bool \<Rightarrow> int
     \<Rightarrow> pyval run" where
  "change_volume w by' to b dev fd fade_seconds s =
     (case backend w b dev s of
        (Inl e, s1) \<Rightarrow> (Inl e, s1)
      | (Inr None, s1) \<Rightarrow> (Inl none_has_no_volume, s1)
      | (Inr (Some vb), s1) \<Rightarrow>
          if vc_class vb = SpotifyVolumeControlAsync then
            (case (case to of Some t \<Rightarrow> (Inr t, s1) | None \<Rightarrow> get_volume w vb s1) of
               (Inl e, s2) \<Rightarrow> (Inl e, s2)
             | (Inr volume, s2) \<Rightarrow> set_volume w vb (volume + by') fd fade_seconds s2)
          else
            (case (case to of Some t \<Rightarrow> (Inr t, s1) | None \<Rightarrow> get_volume w vb s1) of
               (Inl e, s2) \<Rightarrow> (Inl e, s2)
             | (Inr volume, s2) \<Rightarrow>
                 (let new_volume = volume + by' in
                  (case put_volume w vb new_volume s2 of
                     (Inl e, s3) \<Rightarrow> (Inl e, s3)
                   | (Inr u, s3) \<Rightarrow> (Inr (PyInt new_volume), s3)))))"

definition volume_up :: "world \<Rightarrow> backend_arg option \<Rightarrow> pyval run" where
  "volume_up w b = change_volume w 1 None b None False 5"

definition volume_down :: "world \<Rightarrow> backend_arg option \<Rightarrow> pyval run" where
  "volume_down w b = change_volume w (- 1) None b None False 5"

section \<open>Fading\<close>

text \<open>
  The three ways \<^verbatim>\<open>fade\<close> hands the ramp over. \<^verbatim>\<open>loop.create_task(coro)\<close> returns a
  new task object; \<^verbatim>\<open>await coro\<close> runs the ramp to its end and may raise what the ramp
  raises; \<^verbatim>\<open>loop.run_in_executor(None, ...)\<close> returns a future that \<^verbatim>\<open>fade\<close> drops.
\<close>

definition create_task :: "volume_control \<Rightarrow> fade_kwargs \<Rightarrow> pyval run" where
  "create_task vb kw s =
     (Inr (PyTask (next_obj s)),
      s\<lparr>next_obj := Suc (next_obj s), trace := trace s @ [CreateTask (next_obj s) vb kw]\<rparr>)"

definition await_fade :: "world \<Rightarrow> volume_control \<Rightarrow> fade_kwargs \<Rightarrow> unit run" where
  "await_fade w vb kw s =
     (case fade_raises w vb kw (trace s) of Some e \<Rightarrow> Inl e | None \<Rightarrow> Inr (),
      s\<lparr>trace := trace s @ [AwaitFade vb kw]\<rparr>)"

definition run_in_executor :: "volume_control \<Rightarrow> fade_kwargs \<Rightarrow> unit run" where
  "run_in_executor vb kw s = (Inr (), s\<lparr>trace := trace s @ [RunInExecutor vb kw]\<rparr>)"

text \<open>
  The end of \<^verbatim>\<open>fade\<close>, from \<^verbatim>\<open>loop = asyncio.get_event_loop()\<close> on: the choice between
  the three by the backend's class and \<^verbatim>\<open>blocking\<close>.
\<close>

definition hand_over :: "world \<Rightarrow> volume_control \<Rightarrow> fade_kwargs \<Rightarrow> bool \<Rightarrow> pyval run" where
  "hand_over w vb kwargs blocking s =
     (if vc_class vb = SpotifyVolumeControlAsync \<or> vc_class vb = LinuxVolumeControlAsync
      then
        if blocking then
          (case await_fade w vb kwargs s of
             (Inl e, s4) \<Rightarrow> (Inl e, s4)
           | (Inr u, s4) \<Rightarrow> (Inr PyNone, s4))
        else create_task vb kwargs s
      else
        (case run_in_executor vb kwargs s of
           (Inl e, s4) \<Rightarrow> (Inl e, s4)
         | (Inr u, s4) \<Rightarrow> (Inr PyNone, s4)))"

text \<open>
  \<^verbatim>\<open>fade(limit, start, step, seconds, force, backend, spotify_volume, device, blocking)\<close>,
  for integer \<^verbatim>\<open>limit\<close>, \<^verbatim>\<open>start\<close>, \<^verbatim>\<open>step\<close>, \<^verbatim>\<open>seconds\<close> and Boolean \<^verbatim>\<open>force\<close>,
  \<^verbatim>\<open>blocking\<close> (on these \<^verbatim>\<open>int(...)\<close> and \<^verbatim>\<open>bool(...)\<close> change nothing). A backend
  that resolved to \<^verbatim>\<open>None\<close> is no instance of any class and has no \<^verbatim>\<open>fade\<close>.
\<close>

definition fade ::
  "world \<Rightarrow> int \<Rightarrow> int \<Rightarrow> int \<Rightarrow> int \<Rightarrow> bool \<Rightarrow> backend_arg option \<Rightarrow> int \<Rightarrow> string option
     \<Rightarrow> bool \<Rightarrow> pyval run" where
  "fade w limit start step seconds force b spotify_volume dev blocking s =
     (case backend w b dev s of
        (Inl e, s1) \<Rightarrow> (Inl e, s1)
      | (Inr volume_backend, s1) \<Rightarrow>
     (case (if \<not> (case volume_backend of
                     None \<Rightarrow> False
                   | Some vb \<Rightarrow> vc_class vb = SpotifyVolumeControlAsync)
            then change_volume w 0 (Some spotify_volume) (Some (Member SPOTIFY)) dev False 5 s1
            else (Inr PyNone, s1)) of
        (Inl e, s2) \<Rightarrow> (Inl e, s2)
      | (Inr p, s2) \<Rightarrow>
     (case change_volume w 0 (Some start) b dev False 5 s2 of
        (Inl e, s3) \<Rightarrow> (Inl e, s3)
      | (Inr q, s3) \<Rightarrow>
          (let kwargs = \<lparr>fk_limit = limit, fk_start = start, fk_step = step,
                         fk_seconds = seconds, fk_force = force\<rparr>
           in (case volume_backend of
                 None \<Rightarrow> (Inl (AttributeError ''fade''), s3)
               | Some vb \<Rightarrow> hand_over w vb kwargs blocking s3)))))"

section \<open>The retry loop of \<^verbatim>\<open>play_recommended_genre\<close>\<close>

text \<open>
  \<^verbatim>\<open>playlist = self.genre_playlist(genre.name, popularity)\<close> followed by
  \<^verbatim>\<open>while not playlist: playlist = self.genre_playlist(genre.name, popularity)\<close>.
  The catalog is a collaborator: \<open>catalog n\<close> is what its \<open>n\<close>-th call for the chosen
  genre and popularity returns, \<open>None\<close> when it finds no playlist. The loop has no bound,
  so it is a partial function: \<open>None\<close> as the result of \<open>genre_playlist_loop\<close> is the
  loop that never ends, \<open>Some (p, n)\<close> the playlist it left with and the number of the
  call that returned it.
\<close>

partial_function (option) genre_playlist_loop ::
  "(nat \<Rightarrow> 'p option) \<Rightarrow> nat \<Rightarrow> ('p \<times> nat) option" where
  "genre_playlist_loop catalog n =
     (case catalog n of
        Some playlist \<Rightarrow> Some (playlist, n)
      | None \<Rightarrow> genre_playlist_loop catalog (Suc n))"

section \<open>The synchronous wrapper, class \<^verbatim>\<open>Spotify\<close>\<close>

text \<open>
  The wrapper has its own fields and caches. Its properties test \<^verbatim>\<open>os.uname().sysname\<close>
  and have no \<^verbatim>\<open>try\<close>: what a constructor raises leaves the property.
\<close>

record wrapper =
  device_name :: "string option"
  wr_alsa_device :: "string option"
  wr_alsa_mixer :: "string option"
  audio_device :: "string option"
  k_device :: "device_obj option option"
  k_applescript :: "volume_control option option"
  k_linux :: "volume_control option option"
  k_alsa :: "volume_control option option"
  k_spotify :: "volume_control option"
  wr_next_obj :: nat
  wr_trace :: "event list"

type_synonym 'a wrun = "wrapper \<Rightarrow> (exn + 'a) \<times> wrapper"

definition init_wrapper ::
  "string option \<Rightarrow> string option \<Rightarrow> string option \<Rightarrow> string option \<Rightarrow> wrapper" where
  "init_wrapper dev adev amix audio =
     \<lparr>device_name = dev, wr_alsa_device = adev, wr_alsa_mixer = amix, audio_device = audio,
      k_device = None, k_applescript = None, k_linux = None, k_alsa = None,
      k_spotify = None, wr_next_obj = 0, wr_trace = []\<rparr>"

definition wr_construct :: "world \<Rightarrow> vc_class \<Rightarrow> string option \<Rightarrow> volume_control wrun" where
  "wr_construct w cls dev s =
     (case ctor_raises w cls of
        Some e \<Rightarrow> (Inl e, s)
      | None \<Rightarrow>
          (Inr \<lparr>vc_class = cls, vc_id = wr_next_obj s, vc_device = dev\<rparr>,
           s\<lparr>wr_next_obj := Suc (wr_next_obj s)\<rparr>))"

definition Spotify_device :: "world \<Rightarrow> device_obj option wrun" where
  "Spotify_device w s =
     (case k_device s of
        Some d \<Rightarrow> (Inr d, s)
      | None \<Rightarrow>
          (case get_device w (device_name s) of
             Inl e \<Rightarrow> (Inl e, s)
           | Inr d \<Rightarrow> (Inr d, s\<lparr>k_device := Some d\<rparr>)))"

definition Spotify_applescript_volume_control :: "world \<Rightarrow> volume_control option wrun" where
  "Spotify_applescript_volume_control w s =
     (case k_applescript s of
        Some v \<Rightarrow> (Inr v, s)
      | None \<Rightarrow>
          if uname_sysname w \<noteq> ''Darwin'' then (Inr None, s\<lparr>k_applescript := Some None\<rparr>)
          else
            (case wr_construct w ApplescriptVolumeControl None s of
               (Inl e, s') \<Rightarrow> (Inl e, s')
             | (Inr v, s') \<Rightarrow> (Inr (Some v), s'\<lparr>k_applescript := Some (Some v)\<rparr>)))"

definition device_id_of :: "device_obj option \<Rightarrow> string option" where
  "device_id_of d = (case d of None \<Rightarrow> None | Some (Device i) \<Rightarrow> i)"

definition Spotify_linux_volume_control :: "world \<Rightarrow> volume_control option wrun" where
  "Spotify_linux_volume_control w s =
     (case k_linux s of
        Some v \<Rightarrow> (Inr v, s)
      | None \<Rightarrow>
          if uname_sysname w \<noteq> ''Linux'' then (Inr None, s\<lparr>k_linux := Some None\<rparr>)
          else
            (case Spotify_device w s of
               (Inl e, s1) \<Rightarrow> (Inl e, s1)
             | (Inr d, s1) \<Rightarrow>
            (case wr_construct w LinuxVolumeControl None s1 of
               (Inl e, s') \<Rightarrow> (Inl e, s')
             | (Inr v, s') \<Rightarrow> (Inr (Some v), s'\<lparr>k_linux := Some (Some v)\<rparr>))))"

definition Spotify_alsa_volume_control :: "world \<Rightarrow> volume_control option wrun" where
  "Spotify_alsa_volume_control w s =
     (case k_alsa s of
        Some v \<Rightarrow> (Inr v, s)
      | None \<Rightarrow>
          if uname_sysname w \<noteq> ''Linux'' then (Inr None, s\<lparr>k_alsa := Some None\<rparr>)
          else
            (case wr_construct w AlsaVolumeControl None s of
               (Inl e, s') \<Rightarrow> (Inl e, s')
             | (Inr v, s') \<Rightarrow> (Inr (Some v), s'\<lparr>k_alsa := Some (Some v)\<rparr>)))"

definition Spotify_spotify_volume_control :: "world \<Rightarrow> volume_control wrun" where
  "Spotify_spotify_volume_control w s =
     (case k_spotify s of
        Some v \<Rightarrow> (Inr v, s)
      | None \<Rightarrow>
          (case Spotify_device w s of
             (Inl e, s1) \<Rightarrow> (Inl e, s1)
           | (Inr d, s1) \<Rightarrow>
          (case wr_construct w SpotifyVolumeControl (device_id_of d) s1 of
             (Inl e, s') \<Rightarrow> (Inl e, s')
           | (Inr v, s') \<Rightarrow> (Inr v, s'\<lparr>k_spotify := Some v\<rparr>))))"

text \<open>
  \<^verbatim>\<open>volume = self._x_volume_control.volume + value; self._x_volume_control.volume = volume\<close>
  for a property \<open>prop\<close>: the property is read twice (the second time from its cache),
  and \<^verbatim>\<open>None\<close> has no \<^verbatim>\<open>volume\<close>.
\<close>

definition wr_get_volume :: "world \<Rightarrow> volume_control \<Rightarrow> int wrun" where
  "wr_get_volume w vb s =
     (read_volume w vb (wr_trace s), s\<lparr>wr_trace := wr_trace s @ [GetVolume vb]\<rparr>)"

definition wr_put_volume :: "world \<Rightarrow> volume_control \<Rightarrow> int \<Rightarrow> unit wrun" where
  "wr_put_volume w vb v s =
     (case write_volume w vb v (wr_trace s) of Some e \<Rightarrow> Inl e | None \<Rightarrow> Inr (),
      s\<lparr>wr_trace := wr_trace s @ [SetVolume vb v]\<rparr>)"

definition add_to_volume :: "world \<Rightarrow> volume_control option wrun \<Rightarrow> int \<Rightarrow> pyval wrun" where
  "add_to_volume w prop val s =
     (case prop s of
        (Inl e, s1) \<Rightarrow> (Inl e, s1)
      | (Inr None, s1) \<Rightarrow> (Inl none_has_no_volume, s1)
      | (Inr (Some vb), s1) \<Rightarrow>
     (case wr_get_volume w vb s1 of
        (Inl e, s2) \<Rightarrow> (Inl e, s2)
      | (Inr cur, s2) \<Rightarrow>
     (let volume = cur + val in
      (case prop s2 of
         (Inl e, s3) \<Rightarrow> (Inl e, s3)
       | (Inr None, s3) \<Rightarrow> (Inl none_has_no_volume, s3)
       | (Inr (Some vb'), s3) \<Rightarrow>
      (case wr_put_volume w vb' volume s3 of
         (Inl e, s4) \<Rightarrow> (Inl e, s4)
       | (Inr u, s4) \<Rightarrow> (Inr (PyInt volume), s4))))))"

text \<open>
  \<^verbatim>\<open>backend in VolumeBackend\<close> holds for a member on every interpreter; for a string it
  is what the interpreter's containment test does, an exception included.
  \<^verbatim>\<open>x in (M, M.value)\<close> and \<^verbatim>\<open>x in [b.value for b in VolumeBackend]\<close> compare with
  \<^verbatim>\<open>==\<close>, and a member of a plain enum is equal to no string. In
  \<^verbatim>\<open>assert A or B\<close> an exception of \<open>A\<close> leaves the method, and \<open>B\<close> is evaluated only
  when \<open>A\<close> is false.
\<close>

definition in_VolumeBackend :: "world \<Rightarrow> backend_arg \<Rightarrow> exn + bool" where
  "in_VolumeBackend w b =
     (case b of
        Member k \<Rightarrow> Inr True
      | Value v \<Rightarrow>
          (case str_in_enum w of
             StrIsNoMember \<Rightarrow> Inr False
           | StrRaisesTypeError \<Rightarrow> Inl TypeError
           | StrMatchesValue \<Rightarrow> Inr (v \<in> set (map (enum_value w) members))))"

definition in_values :: "world \<Rightarrow> backend_arg \<Rightarrow> bool" where
  "in_values w b =
     (case b of Member k \<Rightarrow> False | Value v \<Rightarrow> v \<in> set (map (enum_value w) members))"

definition names :: "world \<Rightarrow> backend_arg \<Rightarrow> VolumeBackend \<Rightarrow> bool" where
  "names w b k = (b = Member k \<or> b = Value (enum_value w k))"

definition Spotify_change_volume :: "world \<Rightarrow> int \<Rightarrow> backend_arg \<Rightarrow> pyval wrun" where
  "Spotify_change_volume w val b s =
     (case in_VolumeBackend w b of
        Inl e \<Rightarrow> (Inl e, s)
      | Inr member \<Rightarrow>
      if \<not> (member \<or> in_values w b) then (Inl AssertionError, s)
      else if names w b ALSA then
        add_to_volume w (Spotify_alsa_volume_control w) val s
      else if names w b APPLESCRIPT then
        add_to_volume w (Spotify_applescript_volume_control w) val s
      else if names w b SPOTIFY then
        add_to_volume w
          (\<lambda>s. case Spotify_spotify_volume_control w s of
                  (Inl e, s') \<Rightarrow> (Inl e, s')
                | (Inr v, s') \<Rightarrow> (Inr (Some v), s')) val s
      else (Inr PyNone, s))"

text \<open>The part of \<^verbatim>\<open>play\<close> under \<^verbatim>\<open>if fade:\<close>: choose the target, start its thread.\<close>

definition thread_start :: "volume_control \<Rightarrow> (string \<times> int) list \<Rightarrow> unit wrun" where
  "thread_start vb kw s = (Inr (), s\<lparr>wr_trace := wr_trace s @ [ThreadStart vb kw]\<rparr>)"

definition switch_audio_device :: "world \<Rightarrow> volume_control \<Rightarrow> string \<Rightarrow> unit wrun" where
  "switch_audio_device w vb d s =
     (case switch_raises w vb d (wr_trace s) of Some e \<Rightarrow> Inl e | None \<Rightarrow> Inr (),
      s\<lparr>wr_trace := wr_trace s @ [SwitchAudioDevice vb d]\<rparr>)"

definition pin_spotify :: "world \<Rightarrow> int \<Rightarrow> unit wrun" where
  "pin_spotify w volume s =
     (case Spotify_spotify_volume_control w s of
        (Inl e, s1) \<Rightarrow> (Inl e, s1)
      | (Inr sp, s1) \<Rightarrow> wr_put_volume w sp volume s1)"

definition fade_target :: "world \<Rightarrow> int \<Rightarrow> volume_control wrun" where
  "fade_target w volume s =
     (case Spotify_applescript_volume_control w s of
        (Inl e, s1) \<Rightarrow> (Inl e, s1)
      | (Inr (Some a), s1) \<Rightarrow>
          (case audio_device s1 of
             None \<Rightarrow> (Inr a, s1)
           | Some d \<Rightarrow>
               if d = [] then (Inr a, s1)
               else (case switch_audio_device w a d s1 of
                       (Inl e, s2) \<Rightarrow> (Inl e, s2)
                     | (Inr u, s2) \<Rightarrow> (Inr a, s2)))
      | (Inr None, s1) \<Rightarrow>
     (case Spotify_linux_volume_control w s1 of
        (Inl e, s2) \<Rightarrow> (Inl e, s2)
      | (Inr (Some l), s2) \<Rightarrow>
          (case pin_spotify w volume s2 of
             (Inl e, s3) \<Rightarrow> (Inl e, s3)
           | (Inr u, s3) \<Rightarrow> (Inr l, s3))
      | (Inr None, s2) \<Rightarrow>
     (case Spotify_alsa_volume_control w s2 of
        (Inl e, s3) \<Rightarrow> (Inl e, s3)
      | (Inr (Some al), s3) \<Rightarrow>
          (case pin_spotify w volume s3 of
             (Inl e, s4) \<Rightarrow> (Inl e, s4)
           | (Inr u, s4) \<Rightarrow> (Inr al, s4))
      | (Inr None, s3) \<Rightarrow> Spotify_spotify_volume_control w s3)))"

definition start_playback :: "world \<Rightarrow> string list \<Rightarrow> string option \<Rightarrow> pyval wrun" where
  "start_playback w tracks device_id s =
     (start_playback_result w tracks device_id (wr_trace s),
      s\<lparr>wr_trace := wr_trace s @ [StartPlayback tracks device_id]\<rparr>)"

text \<open>
  \<^verbatim>\<open>play(tracks, device_id, fade, volume, fade_args)\<close>; \<^verbatim>\<open>x or y\<close> is \<open>x\<close> when \<open>x\<close> is
  truthy and \<open>y\<close> otherwise.
\<close>

definition Spotify_play ::
  "world \<Rightarrow> string list \<Rightarrow> string option \<Rightarrow> bool \<Rightarrow> int \<Rightarrow> (string \<times> int) list \<Rightarrow> pyval wrun"
  where
  "Spotify_play w tracks device_id fd volume fade_args s =
     (case (if fd then
              (case fade_target w volume s of
                 (Inl e, s1) \<Rightarrow> (Inl e, s1)
               | (Inr target, s1) \<Rightarrow> thread_start target fade_args s1)
            else (Inr (), s)) of
        (Inl e, s2) \<Rightarrow> (Inl e, s2)
      | (Inr u, s2) \<Rightarrow>
     (case Spotify_device w s2 of
        (Inl e, s3) \<Rightarrow> (Inl e, s3)
      | (Inr None, s3) \<Rightarrow> (Inl (AttributeError ''id''), s3)
      | (Inr (Some (Device i)), s3) \<Rightarrow>
          start_playback w tracks (if truthy_str i then i else device_id) s3))"

section \<open>What the caches of a session hold\<close>

text \<open>
  A backend kind is constructible on a host when the host is the platform the property
  asks for and the constructor does not raise. A session is coherent when every filled
  cache holds what its property computes on this host: the invariant of every session
  that started from \<open>init_session\<close>.
\<close>

definition constructible_on :: "world \<Rightarrow> string \<Rightarrow> vc_class \<Rightarrow> bool" where
  "constructible_on w p cls = (sys_platform w = p \<and> ctor_raises w cls = None)"

definition cache_ok ::
  "world \<Rightarrow> nat \<Rightarrow> string \<Rightarrow> vc_class \<Rightarrow> volume_control option option \<Rightarrow> bool" where
  "cache_ok w n p cls c =
     (case c of
        None \<Rightarrow> True
      | Some None \<Rightarrow> \<not> constructible_on w p cls
      | Some (Some v) \<Rightarrow>
          constructible_on w p cls \<and> vc_class v = cls \<and> vc_id v < n \<and> vc_device v = None)"

definition spotify_cache_ok :: "world \<Rightarrow> session \<Rightarrow> bool" where
  "spotify_cache_ok w s =
     (case c_spotify s of
        None \<Rightarrow> True
      | Some v \<Rightarrow>
          ctor_raises w SpotifyVolumeControlAsync = None
          \<and> vc_class v = SpotifyVolumeControlAsync \<and> vc_id v < next_obj s
          \<and> vc_device v = device s)"

text \<open>The dictionary that \<^verbatim>\<open>_backends\<close> assembles from four filled caches.\<close>

definition assembled :: "session \<Rightarrow> (VolumeBackend \<times> volume_control option) list option" where
  "assembled s =
     (case c_applescript s of None \<Rightarrow> None | Some a \<Rightarrow>
      (case c_linux s of None \<Rightarrow> None | Some l \<Rightarrow>
       (case c_alsa s of None \<Rightarrow> None | Some al \<Rightarrow>
        (case c_spotify s of None \<Rightarrow> None | Some sp \<Rightarrow>
           Some [(APPLESCRIPT, a), (LINUX, l), (ALSA, al), (SPOTIFY, Some sp)]))))"

definition backends_cache_ok :: "session \<Rightarrow> bool" where
  "backends_cache_ok s = (c_backends s = None \<or> c_backends s = assembled s)"

definition optimal_cache_ok :: "session \<Rightarrow> bool" where
  "optimal_cache_ok s =
     (case c_optimal s of
        None \<Rightarrow> True
      | Some v \<Rightarrow>
          (case c_backends s of None \<Rightarrow> False | Some m \<Rightarrow> v = first (map snd m)))"

definition coherent :: "world \<Rightarrow> session \<Rightarrow> bool" where
  "coherent w s =
     (cache_ok w (next_obj s) ''darwin'' ApplescriptVolumeControl (c_applescript s)
      \<and> cache_ok w (next_obj s) ''linux'' LinuxVolumeControlAsync (c_linux s)
      \<and> cache_ok w (next_obj s) ''linux'' AlsaVolumeControl (c_alsa s)
      \<and> spotify_cache_ok w s \<and> backends_cache_ok s \<and> optimal_cache_ok s)"

text \<open>
  What a property may change: it fills caches and allocates, and touches nothing else.
\<close>

definition kept :: "'a option \<Rightarrow> 'a option \<Rightarrow> bool" where
  "kept c c' = (c = None \<or> c' = c)"

definition grows :: "session \<Rightarrow> session \<Rightarrow> bool" where
  "grows s s' =
     (device s' = device s \<and> alsa_device s' = alsa_device s \<and> alsa_mixer s' = alsa_mixer s
      \<and> speaker s' = speaker s \<and> trace s' = trace s \<and> next_obj s \<le> next_obj s'
      \<and> kept (c_applescript s) (c_applescript s')
      \<and> kept (c_linux s) (c_linux s')
      \<and> kept (c_alsa s) (c_alsa s')
      \<and> kept (c_spotify s) (c_spotify s')
      \<and> kept (c_backends s) (c_backends s')
      \<and> kept (c_optimal s) (c_optimal s'))"

section \<open>Notions used in the statements\<close>

text \<open>
  The class behind each kind of the \<^verbatim>\<open>_backends\<close> dictionary, the dictionary's order, and
  when a kind's object exists on a host: the host is the platform its property asks for
  (the remote backend asks for none) and its constructor does not raise.
\<close>

definition kind_class :: "VolumeBackend \<Rightarrow> vc_class" where
  "kind_class k =
     (case k of
        APPLESCRIPT \<Rightarrow> ApplescriptVolumeControl
      | LINUX \<Rightarrow> LinuxVolumeControlAsync
      | ALSA \<Rightarrow> AlsaVolumeControl
      | SPOTIFY \<Rightarrow> SpotifyVolumeControlAsync)"

definition priority :: "VolumeBackend list" where
  "priority = [APPLESCRIPT, LINUX, ALSA, SPOTIFY]"

definition kind_constructible :: "world \<Rightarrow> VolumeBackend \<Rightarrow> bool" where
  "kind_constructible w k =
     (case k of
        APPLESCRIPT \<Rightarrow> constructible_on w ''darwin'' ApplescriptVolumeControl
      | LINUX \<Rightarrow> constructible_on w ''linux'' LinuxVolumeControlAsync
      | ALSA \<Rightarrow> constructible_on w ''linux'' AlsaVolumeControl
      | SPOTIFY \<Rightarrow> ctor_raises w SpotifyVolumeControlAsync = None)"

text \<open>
  The event by which \<^verbatim>\<open>fade\<close> hands the ramp over, the events of one \<^verbatim>\<open>fade\<close> call
  in their order (for a local backend the pin of the remote stream comes first), and
  what \<^verbatim>\<open>fade\<close> returns: a task handle or \<^verbatim>\<open>None\<close>.
\<close>

definition ramp_event :: "volume_control \<Rightarrow> fade_kwargs \<Rightarrow> bool \<Rightarrow> nat \<Rightarrow> event" where
  "ramp_event vb kw blocking t =
     (if vc_class vb = SpotifyVolumeControlAsync \<or> vc_class vb = LinuxVolumeControlAsync
      then (if blocking then AwaitFade vb kw else CreateTask t vb kw)
      else RunInExecutor vb kw)"

definition fade_events ::
  "volume_control \<Rightarrow> volume_control \<Rightarrow> int \<Rightarrow> int \<Rightarrow> event \<Rightarrow> event list" where
  "fade_events vb sp spotify_volume start ramp =
     (if vc_class vb \<noteq> SpotifyVolumeControlAsync
      then [SetVolumeAsync sp spotify_volume False 5, SetVolume vb start, ramp]
      else [SetVolumeAsync sp start False 5, ramp])"

definition cooperative :: "volume_control \<Rightarrow> bool" where
  "cooperative vb =
     (vc_class vb = SpotifyVolumeControlAsync \<or> vc_class vb = LinuxVolumeControlAsync)"

definition handle_or_none :: "volume_control \<Rightarrow> bool \<Rightarrow> nat \<Rightarrow> pyval" where
  "handle_or_none vb blocking t =
     (if (vc_class vb = SpotifyVolumeControlAsync \<or> vc_class vb = LinuxVolumeControlAsync)
         \<and> \<not> blocking
      then PyTask t else PyNone)"

text \<open>
  What the wrapper's \<^verbatim>\<open>_device\<close> property evaluates to in a state: the cached device,
  or the remote client's answer for the session's device name.
\<close>

definition resolved_device :: "world \<Rightarrow> wrapper \<Rightarrow> exn + device_obj option" where
  "resolved_device w s =
     (case k_device s of Some d \<Rightarrow> Inr d | None \<Rightarrow> get_device w (device_name s))"

section \<open>Concrete hosts\<close>

text \<open>
  Hosts on which the statements are evaluated: the enum's values as lower-case names,
  a platform, the constructors that raise, and collaborators that all answer.
\<close>

definition enum_values :: "VolumeBackend \<Rightarrow> string" where
  "enum_values k =
     (case k of
        APPLESCRIPT \<Rightarrow> ''applescript''
      | LINUX \<Rightarrow> ''linux''
      | ALSA \<Rightarrow> ''alsa''
      | SPOTIFY \<Rightarrow> ''spotify'')"

definition host :: "string \<Rightarrow> string \<Rightarrow> (vc_class \<Rightarrow> exn option) \<Rightarrow> world" where
  "host p u ctor =
     \<lparr>sys_platform = p, uname_sysname = u, enum_value = enum_values, ctor_raises = ctor,
      read_volume = (\<lambda>vb tr. Inr 40),
      write_volume = (\<lambda>vb v tr. None),
      set_volume_result = (\<lambda>vb v fd secs tr. Inr PyNone),
      fade_raises = (\<lambda>vb kw tr. None),
      get_device = (\<lambda>d. Inr (Some (Device d))),
      switch_raises = (\<lambda>vb d tr. None),
      start_playback_result = (\<lambda>tracks d tr. Inr (PyResult ''started'')),
      str_in_enum = StrIsNoMember\<rparr>"

definition linux_host :: world where
  "linux_host = host ''linux'' ''Linux'' (\<lambda>cls. None)"

definition mac_host :: world where
  "mac_host = host ''darwin'' ''Darwin'' (\<lambda>cls. None)"

text \<open>A Linux host without a usable mixer: the three mixer classes raise.\<close>

definition no_mixer :: "vc_class \<Rightarrow> exn option" where
  "no_mixer cls =
     (if cls = LinuxVolumeControlAsync \<or> cls = AlsaVolumeControl \<or> cls = LinuxVolumeControl
      then Some (Failure ''ALSAAudioError'') else None)"

definition bare_linux_host :: world where
  "bare_linux_host = host ''linux'' ''Linux'' no_mixer"

text \<open>The same Linux host under an interpreter of Python 3.8 to 3.11.\<close>

definition linux_host_py311 :: world where
  "linux_host_py311 = linux_host\<lparr>str_in_enum := StrRaisesTypeError\<rparr>"

definition session0 :: session where
  "session0 = init_session (Some ''kitchen'') None None None"

definition wrapper0 :: wrapper where
  "wrapper0 = init_wrapper (Some ''kitchen'') None None None"


section \<open>Properties of the cached backend discovery\<close>

subsection \<open>Frames\<close>

lemma kept_refl: "kept c c"
  by (simp add: kept_def)

lemma kept_trans: "kept a b \<Longrightarrow> kept b c \<Longrightarrow> kept a c"
  by (auto simp: kept_def)

lemma kept_Some: "kept c c' \<Longrightarrow> c = Some v \<Longrightarrow> c' = Some v"
  by (simp add: kept_def)

lemma grows_refl: "grows s s"
  by (simp add: grows_def kept_refl)

lemma grows_trans: "grows s s1 \<Longrightarrow> grows s1 s2 \<Longrightarrow> grows s s2"
  unfolding grows_def by (elim conjE, intro conjI) (simp_all, (erule (1) kept_trans)+)

lemma grows_trace: "grows s s' \<Longrightarrow> trace s' = trace s"
  by (simp add: grows_def)

lemma grows_device: "grows s s' \<Longrightarrow> device s' = device s"
  by (simp add: grows_def)

lemma grows_next_obj: "grows s s' \<Longrightarrow> next_obj s \<le> next_obj s'"
  by (simp add: grows_def)

subsection \<open>The invariant\<close>

lemma coherent_init: "coherent w (init_session d a m k)"
  by (simp add: coherent_def cache_ok_def spotify_cache_ok_def backends_cache_ok_def
      optimal_cache_ok_def init_session_def)

lemma guarded_ctor_eq:
  "guarded_ctor w p cls s =
     (if constructible_on w p cls
      then (Inr (Some \<lparr>vc_class = cls, vc_id = next_obj s, vc_device = None\<rparr>),
            s\<lparr>next_obj := Suc (next_obj s)\<rparr>)
      else (Inr None, s))"
  by (auto simp: guarded_ctor_def construct_def constructible_on_def split: option.splits)

lemma cache_ok_mono: "cache_ok w n p cls c \<Longrightarrow> n \<le> n' \<Longrightarrow> cache_ok w n' p cls c"
  by (auto simp: cache_ok_def split: option.splits)

lemma cache_ok_guarded:
  "guarded_ctor w p cls s = (Inr v, s') \<Longrightarrow> cache_ok w (next_obj s') p cls (Some v)"
  by (auto simp: guarded_ctor_eq cache_ok_def split: if_splits)

lemma guarded_ctor_state:
  "guarded_ctor w p cls s = (r, s') \<Longrightarrow>
     (\<exists>v. r = Inr v) \<and> (\<exists>n. s' = s\<lparr>next_obj := n\<rparr> \<and> next_obj s \<le> n)"
proof (cases "constructible_on w p cls")
  case True
  assume "guarded_ctor w p cls s = (r, s')"
  with True have "s' = s\<lparr>next_obj := Suc (next_obj s)\<rparr>" and "\<exists>v. r = Inr v"
    by (auto simp: guarded_ctor_eq)
  then show ?thesis by auto
next
  case False
  assume "guarded_ctor w p cls s = (r, s')"
  with False have "s' = s\<lparr>next_obj := next_obj s\<rparr>" and "\<exists>v. r = Inr v"
    by (auto simp: guarded_ctor_eq)
  then show ?thesis by blast
qed

lemma no_backends_cache:
  "backends_cache_ok s \<Longrightarrow>
     c_applescript s = None \<or> c_linux s = None \<or> c_alsa s = None \<or> c_spotify s = None \<Longrightarrow>
     c_backends s = None"
  unfolding backends_cache_ok_def assembled_def by (auto split: option.splits)

lemma no_optimal_cache: "optimal_cache_ok s \<Longrightarrow> c_backends s = None \<Longrightarrow> c_optimal s = None"
  unfolding optimal_cache_ok_def by (cases "c_optimal s") simp_all

lemma coherent_no_caches:
  assumes "coherent w s"
    and "c_applescript s = None \<or> c_linux s = None \<or> c_alsa s = None \<or> c_spotify s = None"
  shows "c_backends s = None" and "c_optimal s = None"
proof -
  from assms(1) have b: "backends_cache_ok s" and o: "optimal_cache_ok s"
    by (simp_all add: coherent_def)
  show "c_backends s = None" by (rule no_backends_cache[OF b assms(2)])
  then show "c_optimal s = None" by (rule no_optimal_cache[OF o])
qed

lemma spotify_cache_ok_mono:
  "spotify_cache_ok w s \<Longrightarrow> c_spotify s' = c_spotify s \<Longrightarrow> device s' = device s \<Longrightarrow>
     next_obj s \<le> next_obj s' \<Longrightarrow> spotify_cache_ok w s'"
  by (auto simp: spotify_cache_ok_def split: option.splits)

lemma coherent_fill_applescript:
  assumes "coherent w s" "c_applescript s = None"
    and "cache_ok w n ''darwin'' ApplescriptVolumeControl (Some v)" "next_obj s \<le> n"
  shows "coherent w (s\<lparr>next_obj := n, c_applescript := Some v\<rparr>)"
proof -
  have nb: "c_backends s = None" and no: "c_optimal s = None"
    using coherent_no_caches[OF assms(1)] assms(2) by simp_all
  from assms(1) have l: "cache_ok w (next_obj s) ''linux'' LinuxVolumeControlAsync (c_linux s)"
    and a: "cache_ok w (next_obj s) ''linux'' AlsaVolumeControl (c_alsa s)"
    and sp: "spotify_cache_ok w s"
    by (simp_all add: coherent_def)
  have sp': "spotify_cache_ok w (s\<lparr>next_obj := n, c_applescript := Some v\<rparr>)"
    by (rule spotify_cache_ok_mono[OF sp]) (simp_all add: assms(4))
  show ?thesis
    unfolding coherent_def
    using cache_ok_mono[OF l assms(4)] cache_ok_mono[OF a assms(4)] assms(3) sp' nb no
    by (simp add: backends_cache_ok_def optimal_cache_ok_def)
qed

lemma coherent_fill_linux:
  assumes "coherent w s" "c_linux s = None"
    and "cache_ok w n ''linux'' LinuxVolumeControlAsync (Some v)" "next_obj s \<le> n"
  shows "coherent w (s\<lparr>next_obj := n, c_linux := Some v\<rparr>)"
proof -
  have nb: "c_backends s = None" and no: "c_optimal s = None"
    using coherent_no_caches[OF assms(1)] assms(2) by simp_all
  from assms(1)
  have l: "cache_ok w (next_obj s) ''darwin'' ApplescriptVolumeControl (c_applescript s)"
    and a: "cache_ok w (next_obj s) ''linux'' AlsaVolumeControl (c_alsa s)"
    and sp: "spotify_cache_ok w s"
    by (simp_all add: coherent_def)
  have sp': "spotify_cache_ok w (s\<lparr>next_obj := n, c_linux := Some v\<rparr>)"
    by (rule spotify_cache_ok_mono[OF sp]) (simp_all add: assms(4))
  show ?thesis
    unfolding coherent_def
    using cache_ok_mono[OF l assms(4)] cache_ok_mono[OF a assms(4)] assms(3) sp' nb no
    by (simp add: backends_cache_ok_def optimal_cache_ok_def)
qed

lemma coherent_fill_alsa:
  assumes "coherent w s" "c_alsa s = None"
    and "cache_ok w n ''linux'' AlsaVolumeControl (Some v)" "next_obj s \<le> n"
  shows "coherent w (s\<lparr>next_obj := n, c_alsa := Some v\<rparr>)"
proof -
  have nb: "c_backends s = None" and no: "c_optimal s = None"
    using coherent_no_caches[OF assms(1)] assms(2) by simp_all
  from assms(1)
  have l: "cache_ok w (next_obj s) ''darwin'' ApplescriptVolumeControl (c_applescript s)"
    and a: "cache_ok w (next_obj s) ''linux'' LinuxVolumeControlAsync (c_linux s)"
    and sp: "spotify_cache_ok w s"
    by (simp_all add: coherent_def)
  have sp': "spotify_cache_ok w (s\<lparr>next_obj := n, c_alsa := Some v\<rparr>)"
    by (rule spotify_cache_ok_mono[OF sp]) (simp_all add: assms(4))
  show ?thesis
    unfolding coherent_def
    using cache_ok_mono[OF l assms(4)] cache_ok_mono[OF a assms(4)] assms(3) sp' nb no
    by (simp add: backends_cache_ok_def optimal_cache_ok_def)
qed

text \<open>Allocating an object that no cache holds keeps the session coherent.\<close>

lemma assembled_frame [simp]:
  "assembled (s\<lparr>next_obj := n\<rparr>) = assembled s"
  "assembled (s\<lparr>trace := tr\<rparr>) = assembled s"
  "assembled (s\<lparr>c_backends := b\<rparr>) = assembled s"
  "assembled (s\<lparr>c_optimal := c\<rparr>) = assembled s"
  by (simp_all add: assembled_def split: option.splits)

lemma cache_oks_alloc [simp]:
  "backends_cache_ok (s\<lparr>next_obj := n\<rparr>) = backends_cache_ok s"
  "optimal_cache_ok (s\<lparr>next_obj := n\<rparr>) = optimal_cache_ok s"
  by (simp_all add: backends_cache_ok_def optimal_cache_ok_def split: option.splits)

lemma cache_oks_trace [simp]:
  "backends_cache_ok (s\<lparr>trace := tr\<rparr>) = backends_cache_ok s"
  "optimal_cache_ok (s\<lparr>trace := tr\<rparr>) = optimal_cache_ok s"
  "spotify_cache_ok w (s\<lparr>trace := tr\<rparr>) = spotify_cache_ok w s"
  by (simp_all add: backends_cache_ok_def optimal_cache_ok_def spotify_cache_ok_def
      split: option.splits)

lemma coherent_alloc:
  assumes "coherent w s" "next_obj s \<le> n"
  shows "coherent w (s\<lparr>next_obj := n\<rparr>)"
proof -
  from assms(1)
  have l: "cache_ok w (next_obj s) ''darwin'' ApplescriptVolumeControl (c_applescript s)"
    and a: "cache_ok w (next_obj s) ''linux'' LinuxVolumeControlAsync (c_linux s)"
    and al: "cache_ok w (next_obj s) ''linux'' AlsaVolumeControl (c_alsa s)"
    and sp: "spotify_cache_ok w s" and b: "backends_cache_ok s" and o: "optimal_cache_ok s"
    by (simp_all add: coherent_def)
  have sp': "spotify_cache_ok w (s\<lparr>next_obj := n\<rparr>)"
    by (rule spotify_cache_ok_mono[OF sp]) (simp_all add: assms(2))
  show ?thesis
    unfolding coherent_def
    using cache_ok_mono[OF l assms(2)] cache_ok_mono[OF a assms(2)]
      cache_ok_mono[OF al assms(2)] sp' b o
    by simp
qed

text \<open>Events do not touch the caches.\<close>

lemma coherent_trace [simp]: "coherent w (s\<lparr>trace := tr\<rparr>) = coherent w s"
  by (simp add: coherent_def)

lemma applescript_step:
  assumes "coherent w s" "applescript_volume_control w s = (r, s')"
  shows "\<exists>v. r = Inr v \<and> c_applescript s' = Some v \<and> coherent w s' \<and> grows s s'
           \<and> c_backends s' = c_backends s \<and> c_optimal s' = c_optimal s"
proof (cases "c_applescript s")
  case (Some v)
  with assms show ?thesis by (simp add: applescript_volume_control_def grows_refl)
next
  case None
  obtain g s1 where g: "guarded_ctor w ''darwin'' ApplescriptVolumeControl s = (g, s1)"
    by (cases "guarded_ctor w ''darwin'' ApplescriptVolumeControl s")
  from guarded_ctor_state[OF g] obtain v n where gv: "g = Inr v"
    and s1: "s1 = s\<lparr>next_obj := n\<rparr>" and n: "next_obj s \<le> n" by auto
  from assms(2) None g gv s1 have r: "r = Inr v"
    and s': "s' = s\<lparr>next_obj := n, c_applescript := Some v\<rparr>"
    by (simp_all add: applescript_volume_control_def)
  from cache_ok_guarded[OF g[unfolded gv]] s1
  have "cache_ok w n ''darwin'' ApplescriptVolumeControl (Some v)" by simp
  from coherent_fill_applescript[OF assms(1) None this n] have "coherent w s'"
    by (simp add: s')
  moreover have "grows s s'" using n by (simp add: s' grows_def kept_def None)
  ultimately show ?thesis by (simp add: r s')
qed

lemma linux_step:
  assumes "coherent w s" "linux_volume_control w s = (r, s')"
  shows "\<exists>v. r = Inr v \<and> c_linux s' = Some v \<and> coherent w s' \<and> grows s s'
           \<and> c_backends s' = c_backends s \<and> c_optimal s' = c_optimal s"
proof (cases "c_linux s")
  case (Some v)
  with assms show ?thesis by (simp add: linux_volume_control_def grows_refl)
next
  case None
  obtain g s1 where g: "guarded_ctor w ''linux'' LinuxVolumeControlAsync s = (g, s1)"
    by (cases "guarded_ctor w ''linux'' LinuxVolumeControlAsync s")
  from guarded_ctor_state[OF g] obtain v n where gv: "g = Inr v"
    and s1: "s1 = s\<lparr>next_obj := n\<rparr>" and n: "next_obj s \<le> n" by auto
  from assms(2) None g gv s1 have r: "r = Inr v"
    and s': "s' = s\<lparr>next_obj := n, c_linux := Some v\<rparr>"
    by (simp_all add: linux_volume_control_def)
  from cache_ok_guarded[OF g[unfolded gv]] s1
  have "cache_ok w n ''linux'' LinuxVolumeControlAsync (Some v)" by simp
  from coherent_fill_linux[OF assms(1) None this n] have "coherent w s'"
    by (simp add: s')
  moreover have "grows s s'" using n by (simp add: s' grows_def kept_def None)
  ultimately show ?thesis by (simp add: r s')
qed

lemma alsa_step:
  assumes "coherent w s" "alsa_volume_control w s = (r, s')"
  shows "\<exists>v. r = Inr v \<and> c_alsa s' = Some v \<and> coherent w s' \<and> grows s s'
           \<and> c_backends s' = c_backends s \<and> c_optimal s' = c_optimal s"
proof (cases "c_alsa s")
  case (Some v)
  with assms show ?thesis by (simp add: alsa_volume_control_def grows_refl)
next
  case None
  obtain g s1 where g: "guarded_ctor w ''linux'' AlsaVolumeControl s = (g, s1)"
    by (cases "guarded_ctor w ''linux'' AlsaVolumeControl s")
  from guarded_ctor_state[OF g] obtain v n where gv: "g = Inr v"
    and s1: "s1 = s\<lparr>next_obj := n\<rparr>" and n: "next_obj s \<le> n" by auto
  from assms(2) None g gv s1 have r: "r = Inr v"
    and s': "s' = s\<lparr>next_obj := n, c_alsa := Some v\<rparr>"
    by (simp_all add: alsa_volume_control_def)
  from cache_ok_guarded[OF g[unfolded gv]] s1
  have "cache_ok w n ''linux'' AlsaVolumeControl (Some v)" by simp
  from coherent_fill_alsa[OF assms(1) None this n] have "coherent w s'"
    by (simp add: s')
  moreover have "grows s s'" using n by (simp add: s' grows_def kept_def None)
  ultimately show ?thesis by (simp add: r s')
qed

lemma coherent_fill_spotify:
  assumes "coherent w s" "c_spotify s = None"
    and "ctor_raises w SpotifyVolumeControlAsync = None"
  shows "coherent w (s\<lparr>next_obj := Suc (next_obj s),
           c_spotify := Some \<lparr>vc_class = SpotifyVolumeControlAsync, vc_id = next_obj s,
                               vc_device = device s\<rparr>\<rparr>)"
proof -
  have nb: "c_backends s = None" and no: "c_optimal s = None"
    using coherent_no_caches[OF assms(1)] assms(2) by simp_all
  have le: "next_obj s \<le> Suc (next_obj s)" by simp
  from assms(1)
  have l: "cache_ok w (next_obj s) ''darwin'' ApplescriptVolumeControl (c_applescript s)"
    and a: "cache_ok w (next_obj s) ''linux'' LinuxVolumeControlAsync (c_linux s)"
    and al: "cache_ok w (next_obj s) ''linux'' AlsaVolumeControl (c_alsa s)"
    by (simp_all add: coherent_def)
  show ?thesis
    unfolding coherent_def
    using cache_ok_mono[OF l le] cache_ok_mono[OF a le] cache_ok_mono[OF al le] nb no assms(3)
    by (simp add: backends_cache_ok_def optimal_cache_ok_def spotify_cache_ok_def)
qed

lemma spotify_step:
  assumes "coherent w s" "spotify_volume_control w s = (r, s')"
  shows "(case r of
            Inl e \<Rightarrow> ctor_raises w SpotifyVolumeControlAsync = Some e \<and> s' = s
          | Inr v \<Rightarrow> c_spotify s' = Some v)
         \<and> coherent w s' \<and> grows s s' \<and> c_backends s' = c_backends s
         \<and> c_optimal s' = c_optimal s"
proof (cases "c_spotify s")
  case (Some v)
  with assms(2) have "r = Inr v" "s' = s" by (simp_all add: spotify_volume_control_def)
  with Some assms(1) show ?thesis by (simp add: grows_refl)
next
  case None
  show ?thesis
  proof (cases "ctor_raises w SpotifyVolumeControlAsync")
    case (Some e)
    with None assms(2) have "r = Inl e" "s' = s"
      by (simp_all add: spotify_volume_control_def construct_def)
    with Some assms(1) show ?thesis by (simp add: grows_refl)
  next
    case ok: None
    let ?v = "\<lparr>vc_class = SpotifyVolumeControlAsync, vc_id = next_obj s,
                vc_device = device s\<rparr>"
    from ok None assms(2) have r: "r = Inr ?v"
      and s': "s' = s\<lparr>next_obj := Suc (next_obj s), c_spotify := Some ?v\<rparr>"
      by (simp_all add: spotify_volume_control_def construct_def)
    have "coherent w s'" unfolding s' by (rule coherent_fill_spotify[OF assms(1) None ok])
    moreover have "grows s s'" by (simp add: s' grows_def kept_def None)
    ultimately show ?thesis by (simp add: r s')
  qed
qed


lemma spotify_cache_ok_frame [simp]:
  "spotify_cache_ok w (s\<lparr>c_backends := b\<rparr>) = spotify_cache_ok w s"
  "spotify_cache_ok w (s\<lparr>c_optimal := c\<rparr>) = spotify_cache_ok w s"
  by (simp_all add: spotify_cache_ok_def split: option.splits)

lemma backends_cached: "c_backends s = Some m \<Longrightarrow> backends w s = (Inr m, s)"
  by (simp add: backends_def)

lemma coherent_fill_backends:
  assumes "coherent w s" "c_backends s = None" "assembled s = Some m"
  shows "coherent w (s\<lparr>c_backends := Some m\<rparr>)"
proof -
  from assms(1) assms(2) have no: "c_optimal s = None"
    by (simp add: coherent_def no_optimal_cache)
  from assms(1) no assms(3) show ?thesis
    by (simp add: coherent_def backends_cache_ok_def optimal_cache_ok_def)
qed

lemma backends_cache_ok_optimal [simp]:
  "backends_cache_ok (s\<lparr>c_optimal := c\<rparr>) = backends_cache_ok s"
  by (simp add: backends_cache_ok_def)

lemma coherent_fill_optimal:
  assumes "coherent w s" "c_backends s = Some m"
  shows "coherent w (s\<lparr>c_optimal := Some (first (map snd m))\<rparr>)"
proof -
  have "optimal_cache_ok (s\<lparr>c_optimal := Some (first (map snd m))\<rparr>)"
    using assms(2) by (simp add: optimal_cache_ok_def)
  with assms(1) show ?thesis by (simp add: coherent_def)
qed

lemma backends_step:
  assumes "coherent w s" "backends w s = (r, s')"
  shows "(case r of
            Inl e \<Rightarrow> ctor_raises w SpotifyVolumeControlAsync = Some e
          | Inr m \<Rightarrow> c_backends s' = Some m \<and> assembled s' = Some m)
         \<and> coherent w s' \<and> grows s s' \<and> c_optimal s' = c_optimal s"
proof (cases "c_backends s")
  case (Some m)
  with assms(2) have r: "r = Inr m" "s' = s" by (simp_all add: backends_def)
  from assms(1) Some have "assembled s = Some m"
    by (simp add: coherent_def backends_cache_ok_def)
  with r Some assms(1) show ?thesis by (simp add: grows_refl)
next
  case None
  obtain r1 s1 where p1: "applescript_volume_control w s = (r1, s1)"
    by (cases "applescript_volume_control w s")
  from applescript_step[OF assms(1) p1] obtain a where a: "r1 = Inr a"
    "c_applescript s1 = Some a" "coherent w s1" "grows s s1" "c_backends s1 = c_backends s"
    "c_optimal s1 = c_optimal s"
    by auto
  obtain r2 s2 where p2: "linux_volume_control w s1 = (r2, s2)"
    by (cases "linux_volume_control w s1")
  from linux_step[OF a(3) p2] obtain l where l: "r2 = Inr l"
    "c_linux s2 = Some l" "coherent w s2" "grows s1 s2" "c_backends s2 = c_backends s1"
    "c_optimal s2 = c_optimal s1"
    by auto
  obtain r3 s3 where p3: "alsa_volume_control w s2 = (r3, s3)"
    by (cases "alsa_volume_control w s2")
  from alsa_step[OF l(3) p3] obtain al where al: "r3 = Inr al"
    "c_alsa s3 = Some al" "coherent w s3" "grows s2 s3" "c_backends s3 = c_backends s2"
    "c_optimal s3 = c_optimal s2"
    by auto
  obtain r4 s4 where p4: "spotify_volume_control w s3 = (r4, s4)"
    by (cases "spotify_volume_control w s3")
  note sp = spotify_step[OF al(3) p4]
  from sp have c4: "coherent w s4" "grows s3 s4" "c_backends s4 = c_backends s3"
    "c_optimal s4 = c_optimal s3" by simp_all
  have g4: "grows s s4"
    using a(4) l(4) al(4) c4(2) by (blast intro: grows_trans)
  have nb4: "c_backends s4 = None" using c4(3) a(5) l(5) al(5) None by simp
  have o4: "c_optimal s4 = c_optimal s" using c4(4) a(6) l(6) al(6) by simp
  show ?thesis
  proof (cases r4)
    case (Inl e)
    with assms(2) None p1 a(1) p2 l(1) p3 al(1) p4 have r: "r = Inl e" "s' = s4"
      by (simp_all add: backends_def)
    from sp Inl have "ctor_raises w SpotifyVolumeControlAsync = Some e" by simp
    with r c4(1) g4 o4 show ?thesis by simp
  next
    case (Inr v)
    let ?m = "[(APPLESCRIPT, a), (LINUX, l), (ALSA, al), (SPOTIFY, Some v)]"
    from assms(2) None p1 a(1) p2 l(1) p3 al(1) p4 Inr have r: "r = Inr ?m"
      and s': "s' = s4\<lparr>c_backends := Some ?m\<rparr>"
      by (simp_all add: backends_def Let_def)
    from sp Inr have c5: "c_spotify s4 = Some v" by simp
    have "c_alsa s4 = Some al" using c4(2) al(2) by (simp add: grows_def kept_def)
    moreover have "c_linux s3 = Some l" using al(4) l(2) by (simp add: grows_def kept_def)
    then have "c_linux s4 = Some l" using c4(2) by (simp add: grows_def kept_def)
    moreover have "c_applescript s2 = Some a" using l(4) a(2) by (simp add: grows_def kept_def)
    then have "c_applescript s3 = Some a" using al(4) by (simp add: grows_def kept_def)
    then have "c_applescript s4 = Some a" using c4(2) by (simp add: grows_def kept_def)
    ultimately have asm: "assembled s4 = Some ?m" using c5 by (simp add: assembled_def)
    have "coherent w s'" unfolding s' by (rule coherent_fill_backends[OF c4(1) nb4 asm])
    moreover have "grows s4 s'" by (simp add: s' grows_def kept_def nb4)
    with g4 have "grows s s'" by (rule grows_trans)
    ultimately show ?thesis using asm o4 by (simp add: r s')
  qed
qed

lemma optimal_step:
  assumes "coherent w s" "optimal_backend w s = (r, s')"
  shows "(case r of
            Inl e \<Rightarrow> ctor_raises w SpotifyVolumeControlAsync = Some e
          | Inr v \<Rightarrow> (\<exists>m. c_backends s' = Some m \<and> assembled s' = Some m
                          \<and> v = first (map snd m)))
         \<and> coherent w s' \<and> grows s s'"
proof (cases "c_optimal s")
  case (Some v)
  with assms(2) have r: "r = Inr v" "s' = s" by (simp_all add: optimal_backend_def)
  from assms(1) Some obtain m where m: "c_backends s = Some m" "v = first (map snd m)"
    by (auto simp: coherent_def optimal_cache_ok_def split: option.splits)
  from m(1) assms(1) have "assembled s = Some m"
    by (simp add: coherent_def backends_cache_ok_def)
  with m r assms(1) show ?thesis by (simp add: grows_refl)
next
  case None
  obtain r1 s1 where b: "backends w s = (r1, s1)" by (cases "backends w s")
  note bs = backends_step[OF assms(1) b]
  from bs have c1: "coherent w s1" "grows s s1" "c_optimal s1 = c_optimal s" by simp_all
  show ?thesis
  proof (cases r1)
    case (Inl e)
    with assms(2) None b have r: "r = Inl e" "s' = s1" by (simp_all add: optimal_backend_def)
    from bs Inl have "ctor_raises w SpotifyVolumeControlAsync = Some e" by simp
    with r c1 show ?thesis by simp
  next
    case (Inr m)
    with assms(2) None b have r: "r = Inr (first (map snd m))"
      and s': "s' = s1\<lparr>c_optimal := Some (first (map snd m))\<rparr>"
      by (simp_all add: optimal_backend_def Let_def)
    from bs Inr have m: "c_backends s1 = Some m" "assembled s1 = Some m" by simp_all
    have "coherent w s'" unfolding s' by (rule coherent_fill_optimal[OF c1(1) m(1)])
    moreover have "grows s1 s'" using c1(3) None by (simp add: s' grows_def kept_def)
    with c1(2) have "grows s s'" by (rule grows_trans)
    ultimately show ?thesis using m by (simp add: r s')
  qed
qed

lemma assembled_entries:
  assumes "assembled s = Some m"
  shows "\<exists>a l al sp. m = [(APPLESCRIPT, a), (LINUX, l), (ALSA, al), (SPOTIFY, Some sp)]
           \<and> c_applescript s = Some a \<and> c_linux s = Some l \<and> c_alsa s = Some al
           \<and> c_spotify s = Some sp"
  using assms by (auto simp: assembled_def split: option.splits)

lemma cache_ok_Some:
  "cache_ok w n p cls (Some v) \<Longrightarrow>
     (v \<noteq> None \<longleftrightarrow> constructible_on w p cls)
     \<and> (\<forall>vc. v = Some vc \<longrightarrow> vc_class vc = cls \<and> vc_id vc < n \<and> vc_device vc = None)"
  by (cases v) (simp_all add: cache_ok_def)

lemma lookup_kind:
  assumes "coherent w s" "assembled s = Some m"
  shows "\<exists>v. map_of m k = Some v \<and> (v \<noteq> None \<longleftrightarrow> kind_constructible w k)
           \<and> (\<forall>vc. v = Some vc \<longrightarrow> vc_class vc = kind_class k \<and> vc_id vc < next_obj s
                  \<and> vc_device vc = (if k = SPOTIFY then device s else None))"
proof -
  from assembled_entries[OF assms(2)] obtain a l al sp where
    m: "m = [(APPLESCRIPT, a), (LINUX, l), (ALSA, al), (SPOTIFY, Some sp)]"
    and c: "c_applescript s = Some a" "c_linux s = Some l" "c_alsa s = Some al"
      "c_spotify s = Some sp"
    by blast
  from assms(1) c have
    a: "cache_ok w (next_obj s) ''darwin'' ApplescriptVolumeControl (Some a)"
    and l: "cache_ok w (next_obj s) ''linux'' LinuxVolumeControlAsync (Some l)"
    and al: "cache_ok w (next_obj s) ''linux'' AlsaVolumeControl (Some al)"
    and sp: "ctor_raises w SpotifyVolumeControlAsync = None"
      "vc_class sp = SpotifyVolumeControlAsync" "vc_id sp < next_obj s"
      "vc_device sp = device s"
    by (simp_all add: coherent_def spotify_cache_ok_def)
  show ?thesis
  proof (cases k)
    case APPLESCRIPT
    with cache_ok_Some[OF a] show ?thesis
      by (simp add: m kind_constructible_def kind_class_def)
  next
    case LINUX
    with cache_ok_Some[OF l] show ?thesis
      by (simp add: m kind_constructible_def kind_class_def)
  next
    case ALSA
    with cache_ok_Some[OF al] show ?thesis
      by (simp add: m kind_constructible_def kind_class_def)
  next
    case SPOTIFY
    with sp show ?thesis
      by (simp add: m kind_constructible_def kind_class_def)
  qed
qed

lemma coherent_spotify_constructs:
  "coherent w s \<Longrightarrow> assembled s = Some m \<Longrightarrow> ctor_raises w SpotifyVolumeControlAsync = None"
  by (auto simp: coherent_def spotify_cache_ok_def dest!: assembled_entries)

text \<open>\<^verbatim>\<open>first\<close> of the dictionary's values is the entry of the first constructible kind.\<close>

lemma first_of_assembled:
  assumes "coherent w s" "assembled s = Some m"
  shows "\<exists>k vc. find (kind_constructible w) priority = Some k
           \<and> first (map snd m) = Some vc \<and> map_of m k = Some (Some vc)
           \<and> vc_class vc = kind_class k"
proof -
  from assembled_entries[OF assms(2)] obtain a l al sp where
    m: "m = [(APPLESCRIPT, a), (LINUX, l), (ALSA, al), (SPOTIFY, Some sp)]"
    by blast
  from lookup_kind[OF assms, of APPLESCRIPT] m
  have a: "a \<noteq> None \<longleftrightarrow> kind_constructible w APPLESCRIPT"
    "\<And>vc. a = Some vc \<Longrightarrow> vc_class vc = kind_class APPLESCRIPT" by auto
  from lookup_kind[OF assms, of LINUX] m
  have l: "l \<noteq> None \<longleftrightarrow> kind_constructible w LINUX"
    "\<And>vc. l = Some vc \<Longrightarrow> vc_class vc = kind_class LINUX" by auto
  from lookup_kind[OF assms, of ALSA] m
  have al: "al \<noteq> None \<longleftrightarrow> kind_constructible w ALSA"
    "\<And>vc. al = Some vc \<Longrightarrow> vc_class vc = kind_class ALSA" by auto
  from lookup_kind[OF assms, of SPOTIFY] m
  have sp: "kind_constructible w SPOTIFY" "vc_class sp = kind_class SPOTIFY" by auto
  show ?thesis
  proof (cases a)
    case (Some vc)
    with a show ?thesis by (simp add: m priority_def truthy_vc_def)
  next
    case na: None
    show ?thesis
    proof (cases l)
      case (Some vc)
      with na a l show ?thesis by (simp add: m priority_def truthy_vc_def)
    next
      case nl: None
      show ?thesis
      proof (cases al)
        case (Some vc)
        with na nl a l al show ?thesis by (simp add: m priority_def truthy_vc_def)
      next
        case None
        with na nl a l al sp show ?thesis by (simp add: m priority_def truthy_vc_def)
      qed
    qed
  qed
qed

subsection \<open>Resolution\<close>

lemma backend_default:
  "\<not> truthy_backend b \<Longrightarrow> backend w b dev s = optimal_backend w s"
  by (cases b) (simp_all add: backend_def)

lemma backend_warm_default:
  "\<not> truthy_backend b \<Longrightarrow> c_optimal s = Some v \<Longrightarrow> backend w b dev s = (Inr v, s)"
  by (simp add: backend_default optimal_backend_def)

lemma backend_named:
  assumes "truthy_backend (Some arg)" "backends w s = (Inr m, s1)"
    and "VolumeBackend_call w arg = Inr k" "map_of m k = Some v"
  shows "backend w (Some arg) dev s =
           (case v of
              None \<Rightarrow> (Inl not_available, s1)
            | Some vb \<Rightarrow>
                if vc_class vb = SpotifyVolumeControlAsync \<and> truthy_str dev \<and> dev \<noteq> device s1
                then (case construct w SpotifyVolumeControlAsync dev s1 of
                        (Inl e, s2) \<Rightarrow> (Inl e, s2)
                      | (Inr v, s2) \<Rightarrow> (Inr (Some v), s2))
                else (Inr (Some vb), s1))"
  using assms by (simp add: backend_def)

lemma construct_ok:
  "ctor_raises w cls = None \<Longrightarrow>
     construct w cls dev s =
       (Inr \<lparr>vc_class = cls, vc_id = next_obj s, vc_device = dev\<rparr>,
        s\<lparr>next_obj := Suc (next_obj s)\<rparr>)"
  by (simp add: construct_def)

lemma grows_alloc: "next_obj s \<le> n \<Longrightarrow> grows s (s\<lparr>next_obj := n\<rparr>)"
  by (simp add: grows_def kept_def)

lemma VolumeBackend_call_cases:
  obtains e where "VolumeBackend_call w arg = Inl e"
  | k where "VolumeBackend_call w arg = Inr k"
  by (cases "VolumeBackend_call w arg") auto

lemma backend_step:
  assumes "coherent w s" "backend w b dev s = (r, s')"
  shows "coherent w s' \<and> grows s s'
         \<and> (case r of
              Inl e \<Rightarrow> True
            | Inr v \<Rightarrow> (\<exists>m. c_backends s' = Some m \<and> assembled s' = Some m)
                        \<and> (\<not> truthy_backend b \<longrightarrow> c_optimal s' = Some v))"
proof (cases "truthy_backend b")
  case False
  with assms(2) have o: "optimal_backend w s = (r, s')" by (simp add: backend_default)
  note os = optimal_step[OF assms(1) o]
  show ?thesis
  proof (cases r)
    case (Inl e)
    with os show ?thesis by simp
  next
    case (Inr v)
    have "c_optimal s' = Some v"
    proof (cases "c_optimal s")
      case None
      with o Inr show ?thesis
        by (auto simp: optimal_backend_def Let_def split: prod.splits sum.splits)
    next
      case (Some v')
      with o Inr show ?thesis by (simp add: optimal_backend_def)
    qed
    with os Inr show ?thesis by auto
  qed
next
  case True
  then obtain arg where b: "b = Some arg" by (cases b) (simp_all add: truthy_backend_def)
  obtain r1 s1 where bs: "backends w s = (r1, s1)" by (cases "backends w s")
  note st = backends_step[OF assms(1) bs]
  from st have c1: "coherent w s1" "grows s s1" by simp_all
  show ?thesis
  proof (cases r1)
    case (Inl e)
    with assms(2) b True bs have "r = Inl e" "s' = s1" by (simp_all add: backend_def)
    with c1 show ?thesis by simp
  next
    case (Inr m)
    with st have m: "c_backends s1 = Some m" "assembled s1 = Some m" by simp_all
    show ?thesis
    proof (cases rule: VolumeBackend_call_cases[of w arg])
      case (1 e)
      with assms(2) b True bs Inr have "r = Inl e" "s' = s1" by (simp_all add: backend_def)
      with c1 show ?thesis by simp
    next
      case (2 k)
      from lookup_kind[OF c1(1) m(2), of k] obtain v where v: "map_of m k = Some v" by blast
      note eq = backend_named[OF True[unfolded b] bs[unfolded Inr] 2 v, of dev]
      show ?thesis
      proof (cases v)
        case None
        with eq assms(2) b have "r = Inl not_available" "s' = s1" by simp_all
        with c1 show ?thesis by simp
      next
        case (Some vb)
        show ?thesis
        proof (cases "vc_class vb = SpotifyVolumeControlAsync \<and> truthy_str dev
                       \<and> dev \<noteq> device s1")
          case False
          with eq Some assms(2) b have "r = Inr (Some vb)" "s' = s1" by auto
          with c1 m True show ?thesis by simp
        next
          case fresh: True
          have ok: "ctor_raises w SpotifyVolumeControlAsync = None"
            by (rule coherent_spotify_constructs[OF c1(1) m(2)])
          from eq Some fresh assms(2) b
          have r: "r = Inr (Some \<lparr>vc_class = SpotifyVolumeControlAsync,
                                    vc_id = next_obj s1, vc_device = dev\<rparr>)"
            and s': "s' = s1\<lparr>next_obj := Suc (next_obj s1)\<rparr>"
            by (simp_all add: construct_ok[OF ok])
          have "coherent w s'" unfolding s' by (rule coherent_alloc[OF c1(1)]) simp
          moreover have "grows s1 s'" unfolding s' by (rule grows_alloc) simp
          with c1(2) have "grows s s'" by (rule grows_trans)
          ultimately show ?thesis using m True by (simp add: r s')
        qed
      qed
    qed
  qed
qed

section \<open>The default backend\<close>

text \<open>
  Claim C1. In a coherent session on a host where the remote backend's constructor does
  not raise, \<^verbatim>\<open>_optimal_backend\<close> returns an object, never \<^verbatim>\<open>None\<close> and never an
  exception: the dictionary's entry for the first kind, in the order desktop script,
  Linux mixer (high), Linux mixer (low), remote service, that is constructible on the
  host. Every kind that is not constructible has the entry \<^verbatim>\<open>None\<close>, so the object
  returned is never one of them, and when none of the three local kinds is
  constructible the remote backend is returned. No event is produced.
\<close>

theorem default_backend_first_constructible:
  assumes "coherent w s" and "ctor_raises w SpotifyVolumeControlAsync = None"
  shows "\<exists>k vc m s'. optimal_backend w s = (Inr (Some vc), s')
           \<and> find (kind_constructible w) priority = Some k \<and> kind_constructible w k
           \<and> vc_class vc = kind_class k
           \<and> backends w s' = (Inr m, s') \<and> map_of m k = Some (Some vc)
           \<and> (\<forall>j. \<not> kind_constructible w j \<longrightarrow> map_of m j = Some None)
           \<and> (\<not> kind_constructible w APPLESCRIPT \<and> \<not> kind_constructible w LINUX
                \<and> \<not> kind_constructible w ALSA \<longrightarrow> k = SPOTIFY)
           \<and> trace s' = trace s"
proof -
  obtain r s' where o: "optimal_backend w s = (r, s')" by (cases "optimal_backend w s")
  note os = optimal_step[OF assms(1) o]
  from os assms(2) obtain v where r: "r = Inr v" by (cases r) simp_all
  from os r obtain m where m: "c_backends s' = Some m" "assembled s' = Some m"
    "v = first (map snd m)" and c: "coherent w s'" and g: "grows s s'" by auto
  from first_of_assembled[OF c m(2)] m(3) obtain k vc where
    k: "find (kind_constructible w) priority = Some k" "v = Some vc"
      "map_of m k = Some (Some vc)" "vc_class vc = kind_class k"
    by auto
  from k(1) have kc: "kind_constructible w k" by (auto simp: find_Some_iff)
  have absent: "\<forall>j. \<not> kind_constructible w j \<longrightarrow> map_of m j = Some None"
    using lookup_kind[OF c m(2)] by (metis option.exhaust)
  have fallback: "\<not> kind_constructible w APPLESCRIPT \<and> \<not> kind_constructible w LINUX
                \<and> \<not> kind_constructible w ALSA \<longrightarrow> k = SPOTIFY"
    using kc by (cases k) auto
  from o r k(2) have "optimal_backend w s = (Inr (Some vc), s')" by simp
  moreover have "backends w s' = (Inr m, s')" by (rule backends_cached[OF m(1)])
  moreover have "trace s' = trace s" by (rule grows_trace[OF g])
  ultimately show ?thesis using k kc absent fallback by blast
qed

lemma optimal_bare_linux:
  "fst (optimal_backend bare_linux_host session0)
     = Inr (Some \<lparr>vc_class = SpotifyVolumeControlAsync, vc_id = 0,
                   vc_device = Some ''kitchen''\<rparr>)"
  by (simp add: optimal_backend_def backends_def applescript_volume_control_def
      linux_volume_control_def alsa_volume_control_def spotify_volume_control_def
      guarded_ctor_def construct_def bare_linux_host_def host_def no_mixer_def
      session0_def init_session_def truthy_vc_def Let_def)

theorem default_backend_first_constructible_witness:
  "coherent bare_linux_host session0
   \<and> ctor_raises bare_linux_host SpotifyVolumeControlAsync = None
   \<and> find (kind_constructible bare_linux_host) priority = Some SPOTIFY
   \<and> (\<exists>s'. optimal_backend bare_linux_host session0
              = (Inr (Some \<lparr>vc_class = SpotifyVolumeControlAsync, vc_id = 0,
                            vc_device = Some ''kitchen''\<rparr>), s')
            \<and> trace s' = trace session0)"
proof -
  have c: "coherent bare_linux_host session0"
    unfolding session0_def by (rule coherent_init)
  have ok: "ctor_raises bare_linux_host SpotifyVolumeControlAsync = None"
    by (simp add: bare_linux_host_def host_def no_mixer_def)
  from default_backend_first_constructible[OF c ok] obtain k vc m s' where
    *: "optimal_backend bare_linux_host session0 = (Inr (Some vc), s')"
      "find (kind_constructible bare_linux_host) priority = Some k"
      "trace s' = trace session0"
    by blast
  have f: "find (kind_constructible bare_linux_host) priority = Some SPOTIFY"
    by (simp add: priority_def kind_constructible_def constructible_on_def
        bare_linux_host_def host_def no_mixer_def)
  from *(1) optimal_bare_linux
  have "vc = \<lparr>vc_class = SpotifyVolumeControlAsync, vc_id = 0,
               vc_device = Some ''kitchen''\<rparr>" by simp
  with * c ok f show ?thesis by blast
qed

section \<open>Naming a backend that is not there\<close>

lemma change_volume_raises:
  "backend w b dev s = (Inl e, s') \<Longrightarrow> change_volume w by' to b dev fd secs s = (Inl e, s')"
  by (simp add: change_volume_def)

text \<open>
  Claim C2. A caller names a kind (by member or by value) whose object does not exist
  on this host: the platform is another one, or the constructor raised. On a host where
  the remote constructor does not raise, \<^verbatim>\<open>backend\<close> then raises the error the source
  reserves for this case, \<^verbatim>\<open>ValueError("Backend None is not available on this system")\<close>
  (the spec's \<open>BackendUnavailable\<close>), and returns no other backend in its place.
  \<^verbatim>\<open>change_volume\<close> through that resolution raises the same error with no event at
  all, so no volume is read or written; the session is the same but for caches filled on
  the way, and is unchanged when the dictionary was already cached.
\<close>

theorem unavailable_backend_raises:
  assumes "coherent w s" and "ctor_raises w SpotifyVolumeControlAsync = None"
    and "truthy_backend (Some arg)" and "VolumeBackend_call w arg = Inr k"
    and "\<not> kind_constructible w k"
  shows "\<exists>s'. backend w (Some arg) dev s = (Inl not_available, s')
           \<and> change_volume w by' to (Some arg) dev fd secs s = (Inl not_available, s')
           \<and> trace s' = trace s \<and> device s' = device s
           \<and> (c_backends s \<noteq> None \<longrightarrow> s' = s)"
proof -
  obtain r1 s1 where bs: "backends w s = (r1, s1)" by (cases "backends w s")
  note st = backends_step[OF assms(1) bs]
  from st assms(2) obtain m where r1: "r1 = Inr m" by (cases r1) simp_all
  from st r1 have m: "assembled s1 = Some m" and c1: "coherent w s1" and g: "grows s s1"
    by simp_all
  from lookup_kind[OF c1 m, of k] assms(5) have v: "map_of m k = Some None" by auto
  from backend_named[OF assms(3) bs[unfolded r1] assms(4) v, of dev]
  have b: "backend w (Some arg) dev s = (Inl not_available, s1)" by simp
  have "c_backends s \<noteq> None \<longrightarrow> s1 = s"
    using bs by (auto simp: backends_def)
  with b change_volume_raises[OF b] g show ?thesis
    by (auto simp: grows_def)
qed

lemma bare_linux_alsa_unavailable:
  "fst (change_volume bare_linux_host 1 None (Some (Value ''alsa'')) None False 5 session0)
     = Inl (ValueError ''Backend None is not available on this system'')"
  by (simp add: change_volume_def backend_def truthy_backend_def VolumeBackend_call_def
      members_def enum_values_def not_available_def
      backends_def applescript_volume_control_def
      linux_volume_control_def alsa_volume_control_def spotify_volume_control_def
      guarded_ctor_def construct_def bare_linux_host_def host_def no_mixer_def
      session0_def init_session_def Let_def)

theorem unavailable_backend_raises_witness:
  "coherent bare_linux_host session0
   \<and> ctor_raises bare_linux_host SpotifyVolumeControlAsync = None
   \<and> truthy_backend (Some (Value ''alsa''))
   \<and> VolumeBackend_call bare_linux_host (Value ''alsa'') = Inr ALSA
   \<and> \<not> kind_constructible bare_linux_host ALSA
   \<and> (\<exists>s'. change_volume bare_linux_host 1 None (Some (Value ''alsa'')) None False 5 session0
              = (Inl (ValueError ''Backend None is not available on this system''), s')
            \<and> trace s' = [])"
proof -
  have c: "coherent bare_linux_host session0"
    unfolding session0_def by (rule coherent_init)
  have ok: "ctor_raises bare_linux_host SpotifyVolumeControlAsync = None"
    by (simp add: bare_linux_host_def host_def no_mixer_def)
  have t: "truthy_backend (Some (Value ''alsa''))" by (simp add: truthy_backend_def)
  have k: "VolumeBackend_call bare_linux_host (Value ''alsa'') = Inr ALSA"
    by (simp add: VolumeBackend_call_def members_def bare_linux_host_def host_def
        enum_values_def)
  have n: "\<not> kind_constructible bare_linux_host ALSA"
    by (simp add: kind_constructible_def constructible_on_def bare_linux_host_def host_def
        no_mixer_def)
  from unavailable_backend_raises[OF c ok t k n, of None 1 None False 5]
  show ?thesis using c ok t k n
    by (auto simp: not_available_def session0_def init_session_def)
qed

section \<open>The remote backend and the device\<close>

text \<open>
  Claim C5. Let \<open>memo\<close> be the remote backend's memoized object, the entry of the
  cached dictionary that \<^verbatim>\<open>_spotify_volume_control\<close> returns from then on. Naming the
  remote kind with a device that is given (truthy) and differs from the session's device
  returns a new object, of another identity than \<open>memo\<close>, bound to that device, and
  leaves \<open>memo\<close> in the cache. Naming it with the session's device, or with none, returns
  \<open>memo\<close> itself. Naming any other kind returns that kind's entry of the dictionary,
  whatever the device.
\<close>

theorem remote_backend_identity:
  assumes "coherent w s" and "ctor_raises w SpotifyVolumeControlAsync = None"
    and "truthy_backend (Some arg)" and "VolumeBackend_call w arg = Inr k"
  shows "\<exists>m s1 memo. backends w s = (Inr m, s1) \<and> c_backends s1 = Some m
           \<and> map_of m SPOTIFY = Some (Some memo) \<and> c_spotify s1 = Some memo
           \<and> spotify_volume_control w s1 = (Inr memo, s1)
           \<and> (c_spotify s = None \<or> c_spotify s = Some memo)
           \<and> (k = SPOTIFY \<and> truthy_str dev \<and> dev \<noteq> device s \<longrightarrow>
                (\<exists>fresh s'. backend w (Some arg) dev s = (Inr (Some fresh), s')
                   \<and> vc_id fresh \<noteq> vc_id memo \<and> fresh \<noteq> memo
                   \<and> vc_class fresh = SpotifyVolumeControlAsync \<and> vc_device fresh = dev
                   \<and> c_spotify s' = Some memo))
           \<and> (k = SPOTIFY \<and> \<not> (truthy_str dev \<and> dev \<noteq> device s) \<longrightarrow>
                backend w (Some arg) dev s = (Inr (Some memo), s1))
           \<and> (k \<noteq> SPOTIFY \<longrightarrow>
                (\<forall>vb. map_of m k = Some (Some vb) \<longrightarrow>
                   backend w (Some arg) dev s = (Inr (Some vb), s1)))"
proof -
  obtain r1 s1 where bs: "backends w s = (r1, s1)" by (cases "backends w s")
  note st = backends_step[OF assms(1) bs]
  from st assms(2) obtain m where r1: "r1 = Inr m" by (cases r1) simp_all
  from st r1 have m: "c_backends s1 = Some m" "assembled s1 = Some m"
    and c1: "coherent w s1" and g: "grows s s1"
    by simp_all
  from assembled_entries[OF m(2)] obtain memo where
    memo: "map_of m SPOTIFY = Some (Some memo)" "c_spotify s1 = Some memo" by auto
  from lookup_kind[OF c1 m(2), of SPOTIFY] memo(1)
  have mp: "vc_class memo = SpotifyVolumeControlAsync" "vc_id memo < next_obj s1"
    by (simp_all add: kind_class_def)
  have sv: "spotify_volume_control w s1 = (Inr memo, s1)"
    using memo(2) by (simp add: spotify_volume_control_def)
  have old: "c_spotify s = None \<or> c_spotify s = Some memo"
    using g memo(2) by (auto simp: grows_def kept_def)
  have dv: "device s1 = device s" by (rule grows_device[OF g])
  note named = backend_named[OF assms(3) bs[unfolded r1] assms(4), of _ dev]
  have fresh: "\<exists>fresh s'. backend w (Some arg) dev s = (Inr (Some fresh), s')
                 \<and> vc_id fresh \<noteq> vc_id memo \<and> fresh \<noteq> memo
                 \<and> vc_class fresh = SpotifyVolumeControlAsync \<and> vc_device fresh = dev
                 \<and> c_spotify s' = Some memo"
    if "k = SPOTIFY" "truthy_str dev" "dev \<noteq> device s"
  proof -
    let ?f = "\<lparr>vc_class = SpotifyVolumeControlAsync, vc_id = next_obj s1, vc_device = dev\<rparr>"
    from named[of "Some memo"] memo(1) that mp(1) dv
    have "backend w (Some arg) dev s = (Inr (Some ?f), s1\<lparr>next_obj := Suc (next_obj s1)\<rparr>)"
      by (simp add: construct_ok[OF assms(2)])
    moreover have "vc_id ?f \<noteq> vc_id memo" "?f \<noteq> memo" using mp(2) by auto
    ultimately show ?thesis using memo(2) by simp
  qed
  have same: "backend w (Some arg) dev s = (Inr (Some memo), s1)"
    if "k = SPOTIFY" "\<not> (truthy_str dev \<and> dev \<noteq> device s)"
    using named[of "Some memo"] memo(1) that dv by auto
  have local: "backend w (Some arg) dev s = (Inr (Some vb), s1)"
    if "k \<noteq> SPOTIFY" "map_of m k = Some (Some vb)" for vb
  proof -
    from lookup_kind[OF c1 m(2), of k] that
    have "vc_class vb \<noteq> SpotifyVolumeControlAsync"
      by (cases k) (auto simp: kind_class_def)
    with named[OF that(2)] show ?thesis by simp
  qed
  from bs r1 m(1) memo sv old fresh same local show ?thesis by blast
qed

lemma linux_backends_value:
  "backends linux_host session0 = (r, s1) \<Longrightarrow>
     r = Inr [(APPLESCRIPT, None),
              (LINUX, Some \<lparr>vc_class = LinuxVolumeControlAsync, vc_id = 0, vc_device = None\<rparr>),
              (ALSA, Some \<lparr>vc_class = AlsaVolumeControl, vc_id = 1, vc_device = None\<rparr>),
              (SPOTIFY, Some \<lparr>vc_class = SpotifyVolumeControlAsync, vc_id = 2,
                                vc_device = Some ''kitchen''\<rparr>)]"
  by (auto simp: backends_def applescript_volume_control_def
      linux_volume_control_def alsa_volume_control_def spotify_volume_control_def
      guarded_ctor_def construct_def linux_host_def host_def
      session0_def init_session_def Let_def)

theorem remote_backend_identity_witness:
  "coherent linux_host session0
   \<and> ctor_raises linux_host SpotifyVolumeControlAsync = None
   \<and> truthy_backend (Some (Member SPOTIFY))
   \<and> VolumeBackend_call linux_host (Member SPOTIFY) = Inr SPOTIFY
   \<and> truthy_str (Some ''bedroom'') \<and> Some ''bedroom'' \<noteq> device session0
   \<and> (\<exists>fresh s'. backend linux_host (Some (Member SPOTIFY)) (Some ''bedroom'') session0
                    = (Inr (Some fresh), s')
         \<and> vc_id fresh \<noteq> 2 \<and> vc_device fresh = Some ''bedroom'')
   \<and> (\<exists>s'. backend linux_host (Some (Member SPOTIFY)) (Some ''kitchen'') session0
              = (Inr (Some \<lparr>vc_class = SpotifyVolumeControlAsync, vc_id = 2,
                            vc_device = Some ''kitchen''\<rparr>), s'))"
proof -
  have c: "coherent linux_host session0"
    unfolding session0_def by (rule coherent_init)
  have ok: "ctor_raises linux_host SpotifyVolumeControlAsync = None"
    by (simp add: linux_host_def host_def)
  have t: "truthy_backend (Some (Member SPOTIFY))" by (simp add: truthy_backend_def)
  have k: "VolumeBackend_call linux_host (Member SPOTIFY) = Inr SPOTIFY"
    by (simp add: VolumeBackend_call_def)
  have d: "truthy_str (Some ''bedroom'')" "Some ''bedroom'' \<noteq> device session0"
    "\<not> (truthy_str (Some ''kitchen'') \<and> Some ''kitchen'' \<noteq> device session0)"
    by (simp_all add: truthy_str_def session0_def init_session_def)
  from remote_backend_identity[OF c ok t k, of "Some ''bedroom''"] d(1,2)
  obtain m s1 memo fresh s' where
    1: "backends linux_host session0 = (Inr m, s1)" "map_of m SPOTIFY = Some (Some memo)"
      "backend linux_host (Some (Member SPOTIFY)) (Some ''bedroom'') session0
         = (Inr (Some fresh), s')"
      "vc_id fresh \<noteq> vc_id memo" "vc_device fresh = Some ''bedroom''"
    by blast
  from linux_backends_value[OF 1(1)] 1(2)
  have memo: "memo = \<lparr>vc_class = SpotifyVolumeControlAsync, vc_id = 2,
                       vc_device = Some ''kitchen''\<rparr>" by auto
  from remote_backend_identity[OF c ok t k, of "Some ''kitchen''"] d(3) 1(1,2)
  have 2: "backend linux_host (Some (Member SPOTIFY)) (Some ''kitchen'') session0
             = (Inr (Some memo), s1)"
    by auto
  from c ok t k d(1,2) 1(3,4,5) 2 memo show ?thesis by auto
qed

section \<open>Constructors that raise\<close>

lemma cached_None_iff:
  "cache_ok w n p cls (Some v) \<Longrightarrow> v = None \<longleftrightarrow> \<not> constructible_on w p cls"
  by (cases v) (simp_all add: cache_ok_def)

text \<open>
  What \<^verbatim>\<open>PlayerMixin\<close> does with a constructor that raises. Each of the three properties
  that sit in a \<^verbatim>\<open>try\<close> (desktop script, Linux mixer high and low) returns normally in every
  coherent session, and returns \<^verbatim>\<open>None\<close> exactly when its kind is not constructible on
  the host, a raising constructor included. Discovery, \<^verbatim>\<open>_backends\<close>, can raise only
  what the remote backend's constructor raises, which has no \<^verbatim>\<open>try\<close> around it; where
  that constructor does not raise, discovery returns the dictionary, whose \<^verbatim>\<open>None\<close>
  entries are exactly the kinds that are not constructible.
\<close>

theorem guarded_construction_is_swallowed:
  assumes "coherent w s"
  shows "(\<exists>v s'. applescript_volume_control w s = (Inr v, s')
            \<and> (v = None \<longleftrightarrow> \<not> kind_constructible w APPLESCRIPT))
       \<and> (\<exists>v s'. linux_volume_control w s = (Inr v, s')
            \<and> (v = None \<longleftrightarrow> \<not> kind_constructible w LINUX))
       \<and> (\<exists>v s'. alsa_volume_control w s = (Inr v, s')
            \<and> (v = None \<longleftrightarrow> \<not> kind_constructible w ALSA))
       \<and> (\<forall>e s'. backends w s = (Inl e, s') \<longrightarrow>
             ctor_raises w SpotifyVolumeControlAsync = Some e)
       \<and> (ctor_raises w SpotifyVolumeControlAsync = None \<longrightarrow>
             (\<exists>m s'. backends w s = (Inr m, s')
                \<and> (\<forall>k. map_of m k = Some None \<longleftrightarrow> \<not> kind_constructible w k)))"
proof (intro conjI)
  obtain r s' where p: "applescript_volume_control w s = (r, s')"
    by (cases "applescript_volume_control w s")
  from applescript_step[OF assms p] obtain v where
    v: "r = Inr v" "c_applescript s' = Some v" "coherent w s'" by blast
  from v(2,3) have "cache_ok w (next_obj s') ''darwin'' ApplescriptVolumeControl (Some v)"
    by (simp add: coherent_def)
  from cached_None_iff[OF this] p v(1)
  show "\<exists>v s'. applescript_volume_control w s = (Inr v, s')
          \<and> (v = None \<longleftrightarrow> \<not> kind_constructible w APPLESCRIPT)"
    by (auto simp: kind_constructible_def)
next
  obtain r s' where p: "linux_volume_control w s = (r, s')"
    by (cases "linux_volume_control w s")
  from linux_step[OF assms p] obtain v where
    v: "r = Inr v" "c_linux s' = Some v" "coherent w s'" by blast
  from v(2,3) have "cache_ok w (next_obj s') ''linux'' LinuxVolumeControlAsync (Some v)"
    by (simp add: coherent_def)
  from cached_None_iff[OF this] p v(1)
  show "\<exists>v s'. linux_volume_control w s = (Inr v, s')
          \<and> (v = None \<longleftrightarrow> \<not> kind_constructible w LINUX)"
    by (auto simp: kind_constructible_def)
next
  obtain r s' where p: "alsa_volume_control w s = (r, s')"
    by (cases "alsa_volume_control w s")
  from alsa_step[OF assms p] obtain v where
    v: "r = Inr v" "c_alsa s' = Some v" "coherent w s'" by blast
  from v(2,3) have "cache_ok w (next_obj s') ''linux'' AlsaVolumeControl (Some v)"
    by (simp add: coherent_def)
  from cached_None_iff[OF this] p v(1)
  show "\<exists>v s'. alsa_volume_control w s = (Inr v, s')
          \<and> (v = None \<longleftrightarrow> \<not> kind_constructible w ALSA)"
    by (auto simp: kind_constructible_def)
next
  show "\<forall>e s'. backends w s = (Inl e, s') \<longrightarrow>
          ctor_raises w SpotifyVolumeControlAsync = Some e"
    using backends_step[OF assms] by fastforce
next
  show "ctor_raises w SpotifyVolumeControlAsync = None \<longrightarrow>
          (\<exists>m s'. backends w s = (Inr m, s')
             \<and> (\<forall>k. map_of m k = Some None \<longleftrightarrow> \<not> kind_constructible w k))"
  proof
    assume ok: "ctor_raises w SpotifyVolumeControlAsync = None"
    obtain r s' where bs: "backends w s = (r, s')" by (cases "backends w s")
    note st = backends_step[OF assms bs]
    from st ok obtain m where r: "r = Inr m" by (cases r) simp_all
    from st r have m: "assembled s' = Some m" and c: "coherent w s'" by simp_all
    have "map_of m k = Some None \<longleftrightarrow> \<not> kind_constructible w k" for k
      using lookup_kind[OF c m, of k] by auto
    with bs r show "\<exists>m s'. backends w s = (Inr m, s')
             \<and> (\<forall>k. map_of m k = Some None \<longleftrightarrow> \<not> kind_constructible w k)"
      by blast
  qed
qed

theorem guarded_construction_is_swallowed_witness:
  "coherent bare_linux_host session0
   \<and> ctor_raises bare_linux_host LinuxVolumeControlAsync = Some (Failure ''ALSAAudioError'')
   \<and> (\<exists>s'. linux_volume_control bare_linux_host session0 = (Inr None, s'))
   \<and> (\<exists>m s'. backends bare_linux_host session0 = (Inr m, s')
          \<and> map_of m LINUX = Some None \<and> map_of m ALSA = Some None)"
proof -
  have c: "coherent bare_linux_host session0"
    unfolding session0_def by (rule coherent_init)
  have ok: "ctor_raises bare_linux_host SpotifyVolumeControlAsync = None"
    "ctor_raises bare_linux_host LinuxVolumeControlAsync = Some (Failure ''ALSAAudioError'')"
    by (simp_all add: bare_linux_host_def host_def no_mixer_def)
  have n: "\<not> kind_constructible bare_linux_host LINUX"
    "\<not> kind_constructible bare_linux_host ALSA"
    by (simp_all add: kind_constructible_def constructible_on_def bare_linux_host_def
        host_def no_mixer_def)
  from guarded_construction_is_swallowed[OF c] ok(1) n c ok(2)
  show ?thesis by fastforce
qed

text \<open>
  Claim C6. An exception raised while a backend is constructed is to be swallowed and
  the backend reported absent, so that discovery never raises because one backend
  failed. \<^verbatim>\<open>PlayerMixin\<close> does this, as shown above. The synchronous wrapper does not:
  its properties construct the same classes with no \<^verbatim>\<open>try\<close>. On a Linux host whose
  mixer constructor raises, the wrapper's \<^verbatim>\<open>_linux_volume_control\<close> raises that
  exception and \<^verbatim>\<open>play(fade=True)\<close> raises it too, before the branches of \<^verbatim>\<open>play\<close>
  that fall back to the low-level mixer and the remote backend are reached; on the
  same host \<^verbatim>\<open>PlayerMixin\<close> reports both mixers absent and resolves the remote backend.
\<close>

theorem construction_failure_propagates:
  "ctor_raises bare_linux_host LinuxVolumeControl = Some (Failure ''ALSAAudioError'')
   \<and> fst (Spotify_linux_volume_control bare_linux_host wrapper0)
     = Inl (Failure ''ALSAAudioError'')
   \<and> fst (Spotify_play bare_linux_host [''track''] None True 80 [] wrapper0)
     = Inl (Failure ''ALSAAudioError'')
   \<and> wr_trace (snd (Spotify_play bare_linux_host [''track''] None True 80 [] wrapper0)) = []
   \<and> fst (linux_volume_control bare_linux_host session0) = Inr None
   \<and> fst (alsa_volume_control bare_linux_host session0) = Inr None
   \<and> fst (backend bare_linux_host None None session0)
     = Inr (Some \<lparr>vc_class = SpotifyVolumeControlAsync, vc_id = 0,
                   vc_device = Some ''kitchen''\<rparr>)"
  by (simp add: Spotify_linux_volume_control_def Spotify_play_def fade_target_def
      Spotify_applescript_volume_control_def Spotify_device_def wr_construct_def
      backend_def optimal_backend_def backends_def applescript_volume_control_def
      linux_volume_control_def alsa_volume_control_def spotify_volume_control_def
      guarded_ctor_def construct_def truthy_vc_def Let_def
      bare_linux_host_def host_def no_mixer_def
      wrapper0_def init_wrapper_def session0_def init_session_def)

section \<open>Resolving twice\<close>

lemma backend_Some:
  assumes "coherent w s" "backend w b dev s = (Inr v, s1)"
  shows "\<exists>vb. v = Some vb"
proof (cases "truthy_backend b")
  case False
  with assms(2) have o: "optimal_backend w s = (Inr v, s1)" by (simp add: backend_default)
  from optimal_step[OF assms(1) o] obtain m where
    m: "assembled s1 = Some m" "v = first (map snd m)" and c: "coherent w s1" by auto
  from first_of_assembled[OF c m(1)] m(2) show ?thesis by auto
next
  case True
  then obtain arg where b: "b = Some arg" by (cases b) (simp_all add: truthy_backend_def)
  from assms(2) True show ?thesis unfolding b backend_def
    by (auto split: prod.splits sum.splits option.splits if_splits)
qed

text \<open>
  Resolving the same local backend again, in a session with the same dictionary and
  default, returns the same object and changes nothing.
\<close>

lemma backend_again_local:
  assumes "coherent w s" "backend w b dev s = (Inr (Some vb), s1)"
    and "vc_class vb \<noteq> SpotifyVolumeControlAsync"
    and "c_backends s2 = c_backends s1" "c_optimal s2 = c_optimal s1"
  shows "backend w b dev s2 = (Inr (Some vb), s2)"
proof (cases "truthy_backend b")
  case False
  from backend_step[OF assms(1,2)] False have "c_optimal s1 = Some (Some vb)" by simp
  with assms(5) False show ?thesis by (simp add: backend_warm_default)
next
  case True
  then obtain arg where b: "b = Some arg" by (cases b) (simp_all add: truthy_backend_def)
  obtain r0 s0 where bs: "backends w s = (r0, s0)" by (cases "backends w s")
  from assms(2) bs obtain m where r0: "r0 = Inr m"
    unfolding b backend_def using True b by (cases r0) auto
  from backends_step[OF assms(1) bs] r0 have m: "c_backends s0 = Some m" by simp
  obtain k where k: "VolumeBackend_call w arg = Inr k"
    using assms(2) bs r0 True unfolding b backend_def
    by (cases "VolumeBackend_call w arg") auto
  obtain v where v: "map_of m k = Some v"
    using assms(2) bs r0 True k unfolding b backend_def by (cases "map_of m k") auto
  from backend_named[OF True[unfolded b] bs[unfolded r0] k v, of dev] assms(2,3)
  have res: "v = Some vb" "s1 = s0"
    unfolding b by (auto simp: construct_def split: option.splits if_splits)
  from assms(4) res(2) m have "backends w s2 = (Inr m, s2)" by (simp add: backends_cached)
  from backend_named[OF True[unfolded b] this k v, of dev] res(1) assms(3)
  show ?thesis unfolding b by simp
qed

text \<open>Naming the remote kind in a session whose dictionary is cached.\<close>

lemma backend_remote_warm:
  assumes "coherent w s" "c_backends s = Some m"
    and "truthy_backend (Some arg)" "VolumeBackend_call w arg = Inr SPOTIFY"
  shows "\<exists>sp n. backend w (Some arg) dev s = (Inr (Some sp), s\<lparr>next_obj := n\<rparr>)
           \<and> next_obj s \<le> n
           \<and> vc_class sp = SpotifyVolumeControlAsync
           \<and> vc_device sp = (if truthy_str dev then dev else device s)"
proof -
  have bs: "backends w s = (Inr m, s)" by (rule backends_cached[OF assms(2)])
  from assms(1,2) have a: "assembled s = Some m"
    by (simp add: coherent_def backends_cache_ok_def)
  have ok: "ctor_raises w SpotifyVolumeControlAsync = None"
    by (rule coherent_spotify_constructs[OF assms(1) a])
  from lookup_kind[OF assms(1) a, of SPOTIFY] ok obtain memo where
    memo: "map_of m SPOTIFY = Some (Some memo)" "vc_class memo = SpotifyVolumeControlAsync"
      "vc_device memo = device s"
    by (auto simp: kind_constructible_def kind_class_def)
  note eq = backend_named[OF assms(3) bs assms(4) memo(1), of dev]
  show ?thesis
  proof (cases "truthy_str dev \<and> dev \<noteq> device s")
    case True
    with eq memo(2) have "backend w (Some arg) dev s =
        (Inr (Some \<lparr>vc_class = SpotifyVolumeControlAsync, vc_id = next_obj s,
                     vc_device = dev\<rparr>), s\<lparr>next_obj := Suc (next_obj s)\<rparr>)"
      by (simp add: construct_ok[OF ok])
    with True show ?thesis by force
  next
    case False
    with eq memo(2) have "backend w (Some arg) dev s = (Inr (Some memo), s\<lparr>next_obj := next_obj s\<rparr>)"
      by auto
    moreover have "vc_device memo = (if truthy_str dev then dev else device s)"
      using False memo(3) by auto
    ultimately show ?thesis using memo(2) by blast
  qed
qed

text \<open>
  Resolving a backend that came out as the remote one again gives a remote object for
  the same device: the same object, or a new one when the device differs from the
  session's.
\<close>

lemma backend_again_remote:
  assumes "coherent w s" "backend w b dev s = (Inr (Some vb), s1)"
    and "vc_class vb = SpotifyVolumeControlAsync"
  shows "\<exists>vb' n. backend w b dev s1 = (Inr (Some vb'), s1\<lparr>next_obj := n\<rparr>)
           \<and> next_obj s1 \<le> n
           \<and> vc_class vb' = SpotifyVolumeControlAsync \<and> vc_device vb' = vc_device vb"
proof (cases "truthy_backend b")
  case False
  from backend_step[OF assms(1,2)] False have "c_optimal s1 = Some (Some vb)" by simp
  with False have "backend w b dev s1 = (Inr (Some vb), s1\<lparr>next_obj := next_obj s1\<rparr>)"
    by (simp add: backend_warm_default)
  with assms(3) show ?thesis by blast
next
  case True
  then obtain arg where b: "b = Some arg" by (cases b) (simp_all add: truthy_backend_def)
  note st = backend_step[OF assms(1,2)]
  from st obtain m where m: "c_backends s1 = Some m" "assembled s1 = Some m"
    and c1: "coherent w s1" and g: "grows s s1" by auto
  obtain r0 s0 where bs: "backends w s = (r0, s0)" by (cases "backends w s")
  from assms(2) bs obtain m0 where r0: "r0 = Inr m0"
    unfolding b backend_def using True b by (cases r0) auto
  note st0 = backends_step[OF assms(1) bs]
  from st0 r0 have m0: "c_backends s0 = Some m0" "assembled s0 = Some m0"
    and c0: "coherent w s0" by simp_all
  obtain k where k: "VolumeBackend_call w arg = Inr k"
    using assms(2) bs r0 True unfolding b backend_def
    by (cases "VolumeBackend_call w arg") auto
  from lookup_kind[OF c0 m0(2), of k] obtain v where v: "map_of m0 k = Some v"
    "\<forall>vc. v = Some vc \<longrightarrow> vc_class vc = kind_class k
        \<and> vc_device vc = (if k = SPOTIFY then device s0 else None)" by blast
  note eq = backend_named[OF True[unfolded b] bs[unfolded r0] k v(1), of dev]
  from eq assms(2) obtain v0 where v0: "v = Some v0"
    unfolding b by (cases v) auto
  have ks: "k = SPOTIFY"
  proof (rule ccontr)
    assume "k \<noteq> SPOTIFY"
    with v(2) v0 have nc: "vc_class v0 \<noteq> SpotifyVolumeControlAsync"
      by (cases k) (auto simp: kind_class_def)
    with eq v0 assms(2) have "vb = v0" unfolding b by simp
    with nc assms(3) show False by simp
  qed
  have ok: "ctor_raises w SpotifyVolumeControlAsync = None"
    by (rule coherent_spotify_constructs[OF c0 m0(2)])
  have dev_vb: "vc_device vb = (if truthy_str dev then dev else device s0)"
    using eq v0 v(2) ks assms(2) unfolding b
    by (auto simp: construct_ok[OF ok] kind_class_def split: if_splits)
  have "device s1 = device s0"
    using eq v0 assms(2) unfolding b
    by (auto simp: construct_ok[OF ok] split: if_splits)
  with backend_remote_warm[OF c1 m(1) True[unfolded b] k[unfolded ks], of dev] dev_vb
  show ?thesis unfolding b by auto
qed

section \<open>Volume changes and fades\<close>

lemma change_volume_to:
  assumes "backend w b dev s = (Inr (Some vb), s1)"
  shows "change_volume w by' (Some t) b dev fd secs s =
           (if vc_class vb = SpotifyVolumeControlAsync
            then (set_volume_result w vb (t + by') fd secs (trace s1),
                  s1\<lparr>trace := trace s1 @ [SetVolumeAsync vb (t + by') fd secs]\<rparr>)
            else (case write_volume w vb (t + by') (trace s1) of
                    Some e \<Rightarrow> Inl e
                  | None \<Rightarrow> Inr (PyInt (t + by')),
                  s1\<lparr>trace := trace s1 @ [SetVolume vb (t + by')]\<rparr>))"
  using assms
  by (simp add: change_volume_def set_volume_def put_volume_def Let_def split: option.splits)

lemma hand_over_result:
  assumes "hand_over w vb kw blocking s = (r, s')"
  shows "trace s' = trace s @ [ramp_event vb kw blocking (next_obj s)]
         \<and> (case r of Inl e \<Rightarrow> True | Inr x \<Rightarrow> x = handle_or_none vb blocking (next_obj s))"
  using assms
  by (auto simp: hand_over_def ramp_event_def handle_or_none_def await_fade_def
      create_task_def run_in_executor_def split: if_splits option.splits)

lemma fade_unfold:
  assumes "backend w b dev s = (Inr (Some vb), s1)"
  shows "fade w limit start step seconds force b spotify_volume dev blocking s =
     (case (if vc_class vb \<noteq> SpotifyVolumeControlAsync
            then change_volume w 0 (Some spotify_volume) (Some (Member SPOTIFY)) dev False 5 s1
            else (Inr PyNone, s1)) of
        (Inl e, s2) \<Rightarrow> (Inl e, s2)
      | (Inr p, s2) \<Rightarrow>
     (case change_volume w 0 (Some start) b dev False 5 s2 of
        (Inl e, s3) \<Rightarrow> (Inl e, s3)
      | (Inr q, s3) \<Rightarrow>
          hand_over w vb \<lparr>fk_limit = limit, fk_start = start, fk_step = step,
                          fk_seconds = seconds, fk_force = force\<rparr> blocking s3))"
  using assms
  by (simp add: fade_def Let_def split: prod.splits sum.splits)

lemma take_all_3: "length xs \<le> 3 \<Longrightarrow> take 3 xs = xs"
  by simp

lemma fade_outcome:
  assumes "coherent w s" and "backend w b dev s = (Inr (Some vb), s1)"
    and "fade w limit start step seconds force b spotify_volume dev blocking s = (r, s')"
  shows "\<exists>sp n t. vc_class sp = SpotifyVolumeControlAsync
           \<and> vc_device sp = (if vc_class vb = SpotifyVolumeControlAsync then vc_device vb
                              else if truthy_str dev then dev else device s)
           \<and> trace s' = trace s @ take n (fade_events vb sp spotify_volume start
                  (ramp_event vb \<lparr>fk_limit = limit, fk_start = start, fk_step = step,
                                   fk_seconds = seconds, fk_force = force\<rparr> blocking t))
           \<and> (case r of Inl e \<Rightarrow> True
               | Inr x \<Rightarrow> n = 3 \<and> x = handle_or_none vb blocking t)"
proof -
  let ?kw = "\<lparr>fk_limit = limit, fk_start = start, fk_step = step,
              fk_seconds = seconds, fk_force = force\<rparr>"
  note st = backend_step[OF assms(1,2)]
  from st obtain m where m: "c_backends s1 = Some m" and c1: "coherent w s1"
    and g: "grows s s1" by auto
  have tr1: "trace s1 = trace s" by (rule grows_trace[OF g])
  have dv1: "device s1 = device s" by (rule grows_device[OF g])
  note unf = fade_unfold[OF assms(2), of limit start step seconds force spotify_volume blocking]
  show ?thesis
  proof (cases "vc_class vb = SpotifyVolumeControlAsync")
    case remote: True
    from backend_again_remote[OF assms(1,2) remote] obtain vb' n where
      again: "backend w b dev s1 = (Inr (Some vb'), s1\<lparr>next_obj := n\<rparr>)"
      and vb': "vc_class vb' = SpotifyVolumeControlAsync" "vc_device vb' = vc_device vb"
      by blast
    let ?s3 = "s1\<lparr>next_obj := n, trace := trace s @ [SetVolumeAsync vb' start False 5]\<rparr>"
    have base: "change_volume w 0 (Some start) b dev False 5 s1
                  = (set_volume_result w vb' start False 5 (trace s), ?s3)"
      using change_volume_to[OF again, of 0 start False 5] vb'(1) tr1 by simp
    show ?thesis
    proof (cases "set_volume_result w vb' start False 5 (trace s)")
      case (Inl e)
      with unf remote base assms(3) have "r = Inl e" "s' = ?s3" by simp_all
      then have "trace s' = trace s @ take 1 (fade_events vb vb' spotify_volume start
                    (ramp_event vb ?kw blocking 0))" "isl r"
        using remote by (simp_all add: fade_events_def)
      with vb' remote show ?thesis
        by (intro exI[of _ vb'] exI[of _ 1] exI[of _ 0]) (auto simp: isl_def)
    next
      case (Inr q)
      with unf remote base assms(3) have h: "hand_over w vb ?kw blocking ?s3 = (r, s')"
        by simp
      from hand_over_result[OF h]
      have "trace s' = trace s @ take 3 (fade_events vb vb' spotify_volume start
                    (ramp_event vb ?kw blocking n))"
        and "case r of Inl e \<Rightarrow> True | Inr x \<Rightarrow> x = handle_or_none vb blocking n"
        using remote by (simp_all add: fade_events_def split: sum.splits)
      with vb' remote show ?thesis
        by (intro exI[of _ vb'] exI[of _ 3] exI[of _ n]) (simp split: sum.splits)
    qed
  next
    case local: False
    have tm: "truthy_backend (Some (Member SPOTIFY))" by (simp add: truthy_backend_def)
    have km: "VolumeBackend_call w (Member SPOTIFY) = Inr SPOTIFY"
      by (simp add: VolumeBackend_call_def)
    from backend_remote_warm[OF c1 m tm km, of dev] obtain sp n where
      res: "backend w (Some (Member SPOTIFY)) dev s1 = (Inr (Some sp), s1\<lparr>next_obj := n\<rparr>)"
      and sp: "vc_class sp = SpotifyVolumeControlAsync"
        "vc_device sp = (if truthy_str dev then dev else device s1)"
      by blast
    let ?s2 = "s1\<lparr>next_obj := n,
                  trace := trace s @ [SetVolumeAsync sp spotify_volume False 5]\<rparr>"
    have pin: "change_volume w 0 (Some spotify_volume) (Some (Member SPOTIFY)) dev False 5 s1
                 = (set_volume_result w sp spotify_volume False 5 (trace s), ?s2)"
      using change_volume_to[OF res, of 0 spotify_volume False 5] sp(1) tr1 by simp
    have spd: "vc_device sp = (if vc_class vb = SpotifyVolumeControlAsync then vc_device vb
                              else if truthy_str dev then dev else device s)"
      using sp(2) local dv1 by simp
    show ?thesis
    proof (cases "set_volume_result w sp spotify_volume False 5 (trace s)")
      case (Inl e)
      with unf local pin assms(3) have "r = Inl e" "s' = ?s2" by simp_all
      then have "trace s' = trace s @ take 1 (fade_events vb sp spotify_volume start
                    (ramp_event vb ?kw blocking 0))" "isl r"
        using local by (simp_all add: fade_events_def)
      with sp(1) spd show ?thesis
        by (intro exI[of _ sp] exI[of _ 1] exI[of _ 0]) (auto simp: isl_def)
    next
      case (Inr p)
      have again: "backend w b dev ?s2 = (Inr (Some vb), ?s2)"
        by (rule backend_again_local[OF assms(1,2) local]) simp_all
      let ?s3 = "?s2\<lparr>trace := trace s @ [SetVolumeAsync sp spotify_volume False 5,
                                              SetVolume vb start]\<rparr>"
      have base: "change_volume w 0 (Some start) b dev False 5 ?s2
                    = (case write_volume w vb start
                              (trace s @ [SetVolumeAsync sp spotify_volume False 5]) of
                         Some e \<Rightarrow> Inl e | None \<Rightarrow> Inr (PyInt start), ?s3)"
        using change_volume_to[OF again, of 0 start False 5] local
        by (simp split: option.splits)
      show ?thesis
      proof (cases "write_volume w vb start
                      (trace s @ [SetVolumeAsync sp spotify_volume False 5])")
        case (Some e)
        with unf local pin Inr base assms(3) have "r = Inl e" "s' = ?s3" by simp_all
        then have "trace s' = trace s @ take 2 (fade_events vb sp spotify_volume start
                      (ramp_event vb ?kw blocking 0))" "isl r"
          using local by (simp_all add: fade_events_def numeral_2_eq_2)
        with sp(1) spd show ?thesis
          by (intro exI[of _ sp] exI[of _ 2] exI[of _ 0]) (auto simp: isl_def)
      next
        case None
        with unf local pin Inr base assms(3)
        have h: "hand_over w vb ?kw blocking ?s3 = (r, s')" by simp
        from hand_over_result[OF h]
        have "trace s' = trace s @ take 3 (fade_events vb sp spotify_volume start
                      (ramp_event vb ?kw blocking n))"
          and "case r of Inl e \<Rightarrow> True | Inr x \<Rightarrow> x = handle_or_none vb blocking n"
          using local by (simp_all add: fade_events_def split: sum.splits)
        with sp(1) spd show ?thesis
          by (intro exI[of _ sp] exI[of _ 3] exI[of _ n]) (simp split: sum.splits)
      qed
    qed
  qed
qed

subsection \<open>The invariant is kept, and fades return\<close>

text \<open>Every operation of \<^verbatim>\<open>PlayerMixin\<close> keeps a coherent session coherent.\<close>

lemma change_volume_coherent:
  assumes "coherent w s" "change_volume w by' to b dev fd secs s = (r, s')"
  shows "coherent w s'"
proof -
  obtain rb s1 where b: "backend w b dev s = (rb, s1)" by (cases "backend w b dev s")
  from backend_step[OF assms(1) b] have c1: "coherent w s1" by simp
  have tr: "coherent w (s1\<lparr>trace := t1\<rparr>)" for t1 using c1 by simp
  have tr2: "coherent w (s1\<lparr>trace := t1, trace := t2\<rparr>)" for t1 t2 using c1 by simp
  from assms(2) b c1 tr tr2 show ?thesis
    by (auto simp: change_volume_def get_volume_def set_volume_def put_volume_def Let_def
        split: sum.splits option.splits if_splits prod.splits)
qed

lemma hand_over_coherent:
  assumes "coherent w s" "hand_over w vb kw blocking s = (r, s')"
  shows "coherent w s'"
proof -
  have "coherent w (s\<lparr>next_obj := Suc (next_obj s), trace := t\<rparr>)" for t
    using coherent_alloc[OF assms(1), of "Suc (next_obj s)"] by simp
  moreover have "coherent w (s\<lparr>trace := t\<rparr>)" for t using assms(1) by simp
  ultimately show ?thesis using assms(2)
    by (auto simp: hand_over_def await_fade_def create_task_def run_in_executor_def
        split: if_splits option.splits)
qed

lemma fade_coherent:
  assumes "coherent w s"
    and "fade w limit start step seconds force b spotify_volume dev blocking s = (r, s')"
  shows "coherent w s'"
proof -
  obtain rb s1 where b: "backend w b dev s = (rb, s1)" by (cases "backend w b dev s")
  from backend_step[OF assms(1) b] have c1: "coherent w s1" by simp
  show ?thesis
  proof (cases rb)
    case (Inl e)
    with assms(2) b c1 show ?thesis by (simp add: fade_def)
  next
    case (Inr v)
    from backend_Some[OF assms(1) b[unfolded Inr]] obtain vb where v: "v = Some vb" ..
    note unf = fade_unfold[OF b[unfolded Inr v], of limit start step seconds force
        spotify_volume blocking]
    define pin where "pin =
      (if vc_class vb \<noteq> SpotifyVolumeControlAsync
       then change_volume w 0 (Some spotify_volume) (Some (Member SPOTIFY)) dev False 5 s1
       else (Inr PyNone, s1))"
    obtain rp s2 where p: "pin = (rp, s2)" by (cases pin)
    have c2: "coherent w s2"
      using p c1 change_volume_coherent[OF c1] by (auto simp: pin_def split: if_splits)
    obtain rq s3 where q: "change_volume w 0 (Some start) b dev False 5 s2 = (rq, s3)"
      by (cases "change_volume w 0 (Some start) b dev False 5 s2")
    have c3: "coherent w s3" by (rule change_volume_coherent[OF c2 q])
    from assms(2) unf p q c2 c3 hand_over_coherent[OF c3] show ?thesis
      unfolding pin_def[symmetric] by (auto split: sum.splits)
  qed
qed

text \<open>
  Resolution succeeds for the default and for every constructible kind, and where the
  collaborators raise nothing \<^verbatim>\<open>fade\<close> returns.
\<close>

lemma backend_returns:
  assumes "coherent w s" and "ctor_raises w SpotifyVolumeControlAsync = None"
    and "truthy_backend b \<longrightarrow>
           (\<exists>arg k. b = Some arg \<and> VolumeBackend_call w arg = Inr k \<and> kind_constructible w k)"
  shows "\<exists>vb s1. backend w b dev s = (Inr (Some vb), s1)"
proof (cases "truthy_backend b")
  case False
  obtain r s1 where o: "optimal_backend w s = (r, s1)" by (cases "optimal_backend w s")
  from optimal_step[OF assms(1) o] assms(2) obtain v where r: "r = Inr v"
    by (cases r) simp_all
  from False o r have "backend w b dev s = (Inr v, s1)" by (simp add: backend_default)
  with backend_Some[OF assms(1) this] show ?thesis by auto
next
  case True
  with assms(3) obtain arg k where b: "b = Some arg"
    and k: "VolumeBackend_call w arg = Inr k" "kind_constructible w k" by blast
  obtain r1 s1 where bs: "backends w s = (r1, s1)" by (cases "backends w s")
  note st = backends_step[OF assms(1) bs]
  from st assms(2) obtain m where r1: "r1 = Inr m" by (cases r1) simp_all
  from st r1 have m: "assembled s1 = Some m" and c1: "coherent w s1" by simp_all
  from lookup_kind[OF c1 m, of k] k(2) obtain vb0 where v: "map_of m k = Some (Some vb0)"
    by auto
  from backend_named[OF True[unfolded b] bs[unfolded r1] k(1) v, of dev]
  show ?thesis unfolding b by (auto simp: construct_ok[OF assms(2)])
qed

lemma hand_over_returns:
  assumes "\<And>vb kw tr. fade_raises w vb kw tr = None"
  shows "\<exists>x s'. hand_over w vb kw blocking s = (Inr x, s')"
  by (simp add: hand_over_def await_fade_def create_task_def run_in_executor_def assms)

lemma fade_returns:
  assumes "coherent w s" and "backend w b dev s = (Inr (Some vb), s1)"
    and sv: "\<And>vb v fd n tr. \<exists>p. set_volume_result w vb v fd n tr = Inr p"
    and wv: "\<And>vb v tr. write_volume w vb v tr = None"
    and fr: "\<And>vb kw tr. fade_raises w vb kw tr = None"
  shows "\<exists>x s'. fade w limit start step seconds force b spotify_volume dev blocking s
                  = (Inr x, s')"
proof -
  note st = backend_step[OF assms(1,2)]
  from st obtain m where m: "c_backends s1 = Some m" and c1: "coherent w s1" by auto
  note unf = fade_unfold[OF assms(2), of limit start step seconds force spotify_volume blocking]
  show ?thesis
  proof (cases "vc_class vb = SpotifyVolumeControlAsync")
    case remote: True
    from backend_again_remote[OF assms(1,2) remote] obtain vb' n where
      again: "backend w b dev s1 = (Inr (Some vb'), s1\<lparr>next_obj := n\<rparr>)"
      and vb': "vc_class vb' = SpotifyVolumeControlAsync" by blast
    from sv[of vb' start False 5 "trace s1"] obtain q where
      q: "set_volume_result w vb' start False 5 (trace s1) = Inr q" ..
    have base: "\<exists>s3. change_volume w 0 (Some start) b dev False 5 s1 = (Inr q, s3)"
      using change_volume_to[OF again, of 0 start False 5] vb' q by simp
    then obtain s3 where "change_volume w 0 (Some start) b dev False 5 s1 = (Inr q, s3)" ..
    with unf remote hand_over_returns[OF fr] show ?thesis by simp
  next
    case local: False
    have tm: "truthy_backend (Some (Member SPOTIFY))" by (simp add: truthy_backend_def)
    have km: "VolumeBackend_call w (Member SPOTIFY) = Inr SPOTIFY"
      by (simp add: VolumeBackend_call_def)
    from backend_remote_warm[OF c1 m tm km, of dev] obtain sp n where
      res: "backend w (Some (Member SPOTIFY)) dev s1 = (Inr (Some sp), s1\<lparr>next_obj := n\<rparr>)"
      and sp: "vc_class sp = SpotifyVolumeControlAsync" by blast
    from sv[of sp spotify_volume False 5 "trace s1"] obtain p where
      p: "set_volume_result w sp spotify_volume False 5 (trace s1) = Inr p" ..
    let ?s2 = "s1\<lparr>next_obj := n,
                  trace := trace s1 @ [SetVolumeAsync sp spotify_volume False 5]\<rparr>"
    have pin: "change_volume w 0 (Some spotify_volume) (Some (Member SPOTIFY)) dev False 5 s1
                 = (Inr p, ?s2)"
      using change_volume_to[OF res, of 0 spotify_volume False 5] sp p by simp
    have again: "backend w b dev ?s2 = (Inr (Some vb), ?s2)"
      by (rule backend_again_local[OF assms(1,2) local]) simp_all
    have base: "\<exists>s3. change_volume w 0 (Some start) b dev False 5 ?s2
                        = (Inr (PyInt start), s3)"
      using change_volume_to[OF again, of 0 start False 5] local by (simp add: wv)
    then obtain s3 where "change_volume w 0 (Some start) b dev False 5 ?s2
                            = (Inr (PyInt start), s3)" ..
    with unf local pin hand_over_returns[OF fr] show ?thesis by simp
  qed
qed

subsection \<open>Evaluations on the concrete hosts\<close>

lemmas eval_defs =
  fade_def hand_over_def change_volume_def backend_def optimal_backend_def backends_def
  applescript_volume_control_def linux_volume_control_def alsa_volume_control_def
  spotify_volume_control_def guarded_ctor_def construct_def
  set_volume_def put_volume_def get_volume_def create_task_def await_fade_def
  run_in_executor_def truthy_backend_def truthy_str_def truthy_vc_def VolumeBackend_call_def
  members_def enum_values_def not_available_def
  linux_host_def mac_host_def bare_linux_host_def host_def no_mixer_def
  session0_def init_session_def Let_def

lemma backend_linux_default:
  "fst (backend linux_host None None session0)
     = Inr (Some \<lparr>vc_class = LinuxVolumeControlAsync, vc_id = 0, vc_device = None\<rparr>)"
  by (simp add: eval_defs)

lemma fade_linux_default:
  "fst (fade linux_host 50 0 1 300 False None 100 None False session0) = Inr (PyTask 3)"
  "trace (snd (fade linux_host 50 0 1 300 False None 100 None False session0))
     = [SetVolumeAsync \<lparr>vc_class = SpotifyVolumeControlAsync, vc_id = 2,
                          vc_device = Some ''kitchen''\<rparr> 100 False 5,
        SetVolume \<lparr>vc_class = LinuxVolumeControlAsync, vc_id = 0, vc_device = None\<rparr> 0,
        CreateTask 3 \<lparr>vc_class = LinuxVolumeControlAsync, vc_id = 0, vc_device = None\<rparr>
          \<lparr>fk_limit = 50, fk_start = 0, fk_step = 1, fk_seconds = 300, fk_force = False\<rparr>]"
  by (simp_all add: eval_defs)

lemma backend_bare_remote:
  "fst (backend bare_linux_host None (Some ''bedroom'') session0)
     = Inr (Some \<lparr>vc_class = SpotifyVolumeControlAsync, vc_id = 0,
                   vc_device = Some ''kitchen''\<rparr>)"
  by (simp add: eval_defs)

lemma fade_bare_remote:
  "fst (fade bare_linux_host 50 0 1 300 False None 100 (Some ''bedroom'') True session0)
     = Inr PyNone"
  "trace (snd (fade bare_linux_host 50 0 1 300 False None 100 (Some ''bedroom'') True session0))
     = [SetVolumeAsync \<lparr>vc_class = SpotifyVolumeControlAsync, vc_id = 0,
                          vc_device = Some ''kitchen''\<rparr> 0 False 5,
        AwaitFade \<lparr>vc_class = SpotifyVolumeControlAsync, vc_id = 0,
                     vc_device = Some ''kitchen''\<rparr>
          \<lparr>fk_limit = 50, fk_start = 0, fk_step = 1, fk_seconds = 300, fk_force = False\<rparr>]"
  by (simp_all add: eval_defs)

lemma backend_mac_default:
  "fst (backend mac_host None None session0)
     = Inr (Some \<lparr>vc_class = ApplescriptVolumeControl, vc_id = 0, vc_device = None\<rparr>)"
  by (simp add: eval_defs)

lemma fade_mac_default:
  "fst (fade mac_host 50 0 1 300 False None 100 None False session0) = Inr PyNone"
  "trace (snd (fade mac_host 50 0 1 300 False None 100 None False session0))
     = [SetVolumeAsync \<lparr>vc_class = SpotifyVolumeControlAsync, vc_id = 1,
                          vc_device = Some ''kitchen''\<rparr> 100 False 5,
        SetVolume \<lparr>vc_class = ApplescriptVolumeControl, vc_id = 0, vc_device = None\<rparr> 0,
        RunInExecutor \<lparr>vc_class = ApplescriptVolumeControl, vc_id = 0, vc_device = None\<rparr>
          \<lparr>fk_limit = 50, fk_start = 0, fk_step = 1, fk_seconds = 300, fk_force = False\<rparr>]"
  by (simp_all add: eval_defs)

text \<open>
  Claim C3. One call of \<^verbatim>\<open>fade\<close> whose backend resolved to \<open>vb\<close> adds to the trace a
  prefix of a fixed sequence, and the whole sequence when it returns normally. For a
  backend that is not the remote one the sequence is: the write of the reference level
  \<^verbatim>\<open>spotify_volume\<close> to a remote-backend object (for the given device, else the
  session's), then the write of \<^verbatim>\<open>start\<close> to \<open>vb\<close>, then the hand-over of the ramp on
  \<open>vb\<close>. For the remote backend it is the write of \<^verbatim>\<open>start\<close> and the hand-over: no
  pin. So the pin precedes the baseline write, which precedes the ramp.
\<close>

theorem fade_pin_baseline_ramp_order:
  assumes "coherent w s" and "backend w b dev s = (Inr (Some vb), s1)"
    and "fade w limit start step seconds force b spotify_volume dev blocking s = (r, s')"
    and "kw = \<lparr>fk_limit = limit, fk_start = start, fk_step = step,
               fk_seconds = seconds, fk_force = force\<rparr>"
  shows "\<exists>sp n t. vc_class sp = SpotifyVolumeControlAsync
           \<and> (vc_class vb \<noteq> SpotifyVolumeControlAsync \<longrightarrow>
                trace s' = trace s @ take n [SetVolumeAsync sp spotify_volume False 5,
                                            SetVolume vb start,
                                            ramp_event vb kw blocking t]
                \<and> vc_device sp = (if truthy_str dev then dev else device s))
           \<and> (vc_class vb = SpotifyVolumeControlAsync \<longrightarrow>
                trace s' = trace s @ take n [SetVolumeAsync sp start False 5,
                                            ramp_event vb kw blocking t]
                \<and> vc_device sp = vc_device vb)
           \<and> (\<not> isl r \<longrightarrow> n = 3)"
proof -
  from fade_outcome[OF assms(1,2,3)] obtain sp n t where
    sp: "vc_class sp = SpotifyVolumeControlAsync"
    and dv: "vc_device sp = (if vc_class vb = SpotifyVolumeControlAsync then vc_device vb
                              else if truthy_str dev then dev else device s)"
    and tr: "trace s' = trace s @ take n (fade_events vb sp spotify_volume start
                                            (ramp_event vb kw blocking t))"
    and r: "case r of Inl e \<Rightarrow> True | Inr x \<Rightarrow> n = 3 \<and> x = handle_or_none vb blocking t"
    unfolding assms(4) by blast
  from r have "\<not> isl r \<longrightarrow> n = 3" by (cases r) simp_all
  with sp dv tr show ?thesis
    by (intro exI[of _ sp] exI[of _ n] exI[of _ t]) (simp add: fade_events_def)
qed

theorem fade_pin_baseline_ramp_order_witness:
  "coherent linux_host session0 \<and> coherent bare_linux_host session0
   \<and> (\<exists>sp n t s'.
         trace s' = [] @ take n
            [SetVolumeAsync sp 100 False 5,
             SetVolume \<lparr>vc_class = LinuxVolumeControlAsync, vc_id = 0, vc_device = None\<rparr> 0,
             ramp_event \<lparr>vc_class = LinuxVolumeControlAsync, vc_id = 0, vc_device = None\<rparr>
               \<lparr>fk_limit = 50, fk_start = 0, fk_step = 1, fk_seconds = 300, fk_force = False\<rparr>
               False t]
         \<and> n = 3
         \<and> fade linux_host 50 0 1 300 False None 100 None False session0 = (Inr (PyTask 3), s'))
   \<and> (\<exists>sp n t s'.
         trace s' = [] @ take n
            [SetVolumeAsync sp 0 False 5,
             ramp_event \<lparr>vc_class = SpotifyVolumeControlAsync, vc_id = 0,
                          vc_device = Some ''kitchen''\<rparr>
               \<lparr>fk_limit = 50, fk_start = 0, fk_step = 1, fk_seconds = 300, fk_force = False\<rparr>
               True t]
         \<and> n = 3
         \<and> fade bare_linux_host 50 0 1 300 False None 100 (Some ''bedroom'') True session0
             = (Inr PyNone, s'))"
proof -
  let ?kw = "\<lparr>fk_limit = 50, fk_start = 0, fk_step = 1, fk_seconds = 300, fk_force = False\<rparr>"
  let ?l0 = "\<lparr>vc_class = LinuxVolumeControlAsync, vc_id = 0, vc_device = None\<rparr>"
  let ?s0 = "\<lparr>vc_class = SpotifyVolumeControlAsync, vc_id = 0, vc_device = Some ''kitchen''\<rparr>"
  have c: "coherent linux_host session0" "coherent bare_linux_host session0"
    unfolding session0_def by (rule coherent_init)+
  obtain s1 where b1: "backend linux_host None None session0 = (Inr (Some ?l0), s1)"
    using backend_linux_default by (cases "backend linux_host None None session0") auto
  obtain s' where f1: "fade linux_host 50 0 1 300 False None 100 None False session0
                         = (Inr (PyTask 3), s')"
    using fade_linux_default(1)
    by (cases "fade linux_host 50 0 1 300 False None 100 None False session0") auto
  from fade_pin_baseline_ramp_order[OF c(1) b1 f1 refl]
  have 1: "\<exists>sp n t s'.
         trace s' = [] @ take n
            [SetVolumeAsync sp 100 False 5, SetVolume ?l0 0, ramp_event ?l0 ?kw False t]
         \<and> n = 3
         \<and> fade linux_host 50 0 1 300 False None 100 None False session0 = (Inr (PyTask 3), s')"
    using f1 by (auto simp: session0_def init_session_def)
  obtain s2 where b2: "backend bare_linux_host None (Some ''bedroom'') session0
                         = (Inr (Some ?s0), s2)"
    using backend_bare_remote
    by (cases "backend bare_linux_host None (Some ''bedroom'') session0") auto
  obtain s'' where f2: "fade bare_linux_host 50 0 1 300 False None 100 (Some ''bedroom'') True
                          session0 = (Inr PyNone, s'')"
    using fade_bare_remote(1)
    by (cases "fade bare_linux_host 50 0 1 300 False None 100 (Some ''bedroom'') True session0")
      auto
  from fade_pin_baseline_ramp_order[OF c(2) b2 f2 refl]
  have 2: "\<exists>sp n t s'.
         trace s' = [] @ take n [SetVolumeAsync sp 0 False 5, ramp_event ?s0 ?kw True t]
         \<and> n = 3
         \<and> fade bare_linux_host 50 0 1 300 False None 100 (Some ''bedroom'') True session0
             = (Inr PyNone, s')"
    using f2 by (auto simp: session0_def init_session_def)
  from c 1 2 show ?thesis by blast
qed

lemma last_take_all: "xs \<noteq> [] \<Longrightarrow> length xs \<le> n \<Longrightarrow> last (ys @ take n xs) = last xs"
  by simp

text \<open>
  Claim C4. When \<^verbatim>\<open>fade\<close> returns, it returns a task handle exactly when the backend
  is the remote one or the composite Linux one and \<^verbatim>\<open>blocking\<close> is false, and the last
  event is then the creation of that task. With \<^verbatim>\<open>blocking\<close> true on such a backend the
  ramp was awaited and \<^verbatim>\<open>None\<close> is returned; for any other backend the ramp went to the
  executor and \<^verbatim>\<open>None\<close> is returned, whatever \<^verbatim>\<open>blocking\<close> is. This holds for every
  limit, start, step, seconds and force.
\<close>

theorem fade_handle_iff_cooperative_nonblocking:
  assumes "coherent w s" and "backend w b dev s = (Inr (Some vb), s1)"
    and "fade w limit start step seconds force b spotify_volume dev blocking s = (Inr x, s')"
    and "kw = \<lparr>fk_limit = limit, fk_start = start, fk_step = step,
               fk_seconds = seconds, fk_force = force\<rparr>"
  shows "((\<exists>t. x = PyTask t) \<longleftrightarrow> cooperative vb \<and> \<not> blocking)
       \<and> (cooperative vb \<and> \<not> blocking \<longrightarrow>
            (\<exists>t. x = PyTask t \<and> last (trace s') = CreateTask t vb kw))
       \<and> (cooperative vb \<and> blocking \<longrightarrow>
            x = PyNone \<and> last (trace s') = AwaitFade vb kw)
       \<and> (\<not> cooperative vb \<longrightarrow>
            x = PyNone \<and> last (trace s') = RunInExecutor vb kw)"
proof -
  from fade_outcome[OF assms(1,2,3)] obtain sp t where
    tr: "trace s' = trace s @ take 3 (fade_events vb sp spotify_volume start
                                        (ramp_event vb kw blocking t))"
    and x: "x = handle_or_none vb blocking t"
    unfolding assms(4) by auto
  have "last (trace s') = ramp_event vb kw blocking t"
    unfolding tr by (simp add: fade_events_def)
  with x show ?thesis
    by (auto simp: cooperative_def handle_or_none_def ramp_event_def)
qed

theorem fade_handle_iff_cooperative_nonblocking_witness:
  "coherent linux_host session0 \<and> coherent bare_linux_host session0
   \<and> coherent mac_host session0
   \<and> (\<exists>s'. fade linux_host 50 0 1 300 False None 100 None False session0
              = (Inr (PyTask 3), s')
          \<and> last (trace s') =
              CreateTask 3 \<lparr>vc_class = LinuxVolumeControlAsync, vc_id = 0, vc_device = None\<rparr>
                \<lparr>fk_limit = 50, fk_start = 0, fk_step = 1, fk_seconds = 300,
                   fk_force = False\<rparr>)
   \<and> (\<exists>s'. fade bare_linux_host 50 0 1 300 False None 100 (Some ''bedroom'') True session0
              = (Inr PyNone, s')
          \<and> last (trace s') =
              AwaitFade \<lparr>vc_class = SpotifyVolumeControlAsync, vc_id = 0,
                          vc_device = Some ''kitchen''\<rparr>
                \<lparr>fk_limit = 50, fk_start = 0, fk_step = 1, fk_seconds = 300,
                   fk_force = False\<rparr>)
   \<and> (\<exists>s'. fade mac_host 50 0 1 300 False None 100 None False session0 = (Inr PyNone, s')
          \<and> last (trace s') =
              RunInExecutor \<lparr>vc_class = ApplescriptVolumeControl, vc_id = 0, vc_device = None\<rparr>
                \<lparr>fk_limit = 50, fk_start = 0, fk_step = 1, fk_seconds = 300,
                   fk_force = False\<rparr>)"
proof -
  let ?l0 = "\<lparr>vc_class = LinuxVolumeControlAsync, vc_id = 0, vc_device = None\<rparr>"
  let ?s0 = "\<lparr>vc_class = SpotifyVolumeControlAsync, vc_id = 0, vc_device = Some ''kitchen''\<rparr>"
  let ?a0 = "\<lparr>vc_class = ApplescriptVolumeControl, vc_id = 0, vc_device = None\<rparr>"
  have c: "coherent linux_host session0" "coherent bare_linux_host session0"
    "coherent mac_host session0"
    unfolding session0_def by (rule coherent_init)+
  obtain s1 where b1: "backend linux_host None None session0 = (Inr (Some ?l0), s1)"
    using backend_linux_default by (cases "backend linux_host None None session0") auto
  obtain s1' where f1: "fade linux_host 50 0 1 300 False None 100 None False session0
                         = (Inr (PyTask 3), s1')"
    using fade_linux_default(1)
    by (cases "fade linux_host 50 0 1 300 False None 100 None False session0") auto
  from fade_handle_iff_cooperative_nonblocking[OF c(1) b1 f1 refl] f1
  have 1: "\<exists>s'. fade linux_host 50 0 1 300 False None 100 None False session0
              = (Inr (PyTask 3), s')
          \<and> last (trace s') = CreateTask 3 ?l0
                \<lparr>fk_limit = 50, fk_start = 0, fk_step = 1, fk_seconds = 300,
                   fk_force = False\<rparr>"
    by (auto simp: cooperative_def)
  obtain s2 where b2: "backend bare_linux_host None (Some ''bedroom'') session0
                         = (Inr (Some ?s0), s2)"
    using backend_bare_remote
    by (cases "backend bare_linux_host None (Some ''bedroom'') session0") auto
  obtain s2' where f2: "fade bare_linux_host 50 0 1 300 False None 100 (Some ''bedroom'') True
                          session0 = (Inr PyNone, s2')"
    using fade_bare_remote(1)
    by (cases "fade bare_linux_host 50 0 1 300 False None 100 (Some ''bedroom'') True session0")
      auto
  from fade_handle_iff_cooperative_nonblocking[OF c(2) b2 f2 refl] f2
  have 2: "\<exists>s'. fade bare_linux_host 50 0 1 300 False None 100 (Some ''bedroom'') True session0
              = (Inr PyNone, s')
          \<and> last (trace s') = AwaitFade ?s0
                \<lparr>fk_limit = 50, fk_start = 0, fk_step = 1, fk_seconds = 300,
                   fk_force = False\<rparr>"
    by (auto simp: cooperative_def)
  obtain s3 where b3: "backend mac_host None None session0 = (Inr (Some ?a0), s3)"
    using backend_mac_default by (cases "backend mac_host None None session0") auto
  obtain s3' where f3: "fade mac_host 50 0 1 300 False None 100 None False session0
                          = (Inr PyNone, s3')"
    using fade_mac_default(1)
    by (cases "fade mac_host 50 0 1 300 False None 100 None False session0") auto
  from fade_handle_iff_cooperative_nonblocking[OF c(3) b3 f3 refl] f3
  have 3: "\<exists>s'. fade mac_host 50 0 1 300 False None 100 None False session0 = (Inr PyNone, s')
          \<and> last (trace s') = RunInExecutor ?a0
                \<lparr>fk_limit = 50, fk_start = 0, fk_step = 1, fk_seconds = 300,
                   fk_force = False\<rparr>"
    by (auto simp: cooperative_def)
  from c 1 2 3 show ?thesis by blast
qed

text \<open>
  Claim C7, as the code has it. \<^verbatim>\<open>change_volume\<close> has no \<^verbatim>\<open>force\<close> parameter and checks
  no range. With a target \<^verbatim>\<open>to\<close> it makes exactly one write, of \<^verbatim>\<open>to + by\<close>, to the
  resolved backend. For a local backend it returns \<^verbatim>\<open>to + by\<close> itself unless the write
  raises; for the remote backend it returns what \<^verbatim>\<open>set_volume\<close> returns.
\<close>

theorem change_volume_writes_target_through:
  assumes "coherent w s" and "backend w b dev s = (Inr (Some vb), s1)"
  shows "(vc_class vb \<noteq> SpotifyVolumeControlAsync \<longrightarrow>
            change_volume w by' (Some t) b dev fd secs s =
              (case write_volume w vb (t + by') (trace s) of
                 Some e \<Rightarrow> Inl e
               | None \<Rightarrow> Inr (PyInt (t + by')),
               s1\<lparr>trace := trace s @ [SetVolume vb (t + by')]\<rparr>))
       \<and> (vc_class vb = SpotifyVolumeControlAsync \<longrightarrow>
            change_volume w by' (Some t) b dev fd secs s =
              (set_volume_result w vb (t + by') fd secs (trace s),
               s1\<lparr>trace := trace s @ [SetVolumeAsync vb (t + by') fd secs]\<rparr>))"
proof -
  from backend_step[OF assms] have "trace s1 = trace s" by (simp add: grows_def)
  with change_volume_to[OF assms(2), of by' t fd secs] show ?thesis by simp
qed

theorem change_volume_writes_target_through_witness:
  "coherent mac_host session0
   \<and> (\<exists>s1. backend mac_host None None session0
              = (Inr (Some \<lparr>vc_class = ApplescriptVolumeControl, vc_id = 0,
                            vc_device = None\<rparr>), s1)
          \<and> change_volume mac_host 5 (Some (- 20)) None None False 5 session0
              = (Inr (PyInt (- 15)),
                 s1\<lparr>trace := [SetVolume \<lparr>vc_class = ApplescriptVolumeControl, vc_id = 0,
                                           vc_device = None\<rparr> (- 15)]\<rparr>))"
proof -
  let ?a0 = "\<lparr>vc_class = ApplescriptVolumeControl, vc_id = 0, vc_device = None\<rparr>"
  have c: "coherent mac_host session0"
    unfolding session0_def by (rule coherent_init)
  obtain s1 where b: "backend mac_host None None session0 = (Inr (Some ?a0), s1)"
    using backend_mac_default by (cases "backend mac_host None None session0") auto
  from change_volume_writes_target_through[OF c b, of 5 "- 20" False 5]
  have "change_volume mac_host 5 (Some (- 20)) None None False 5 session0
          = (Inr (PyInt (- 15)), s1\<lparr>trace := [SetVolume ?a0 (- 15)]\<rparr>)"
    by (simp add: mac_host_def host_def session0_def init_session_def)
  with c b show ?thesis by blast
qed

text \<open>
  The claim as stated fails: the target 150 on the ALSA backend of a Linux host is
  neither rejected nor clamped. It is written, and 150 is returned.
\<close>

theorem change_volume_out_of_range_accepted:
  "fst (change_volume linux_host 0 (Some 150) (Some (Member ALSA)) None False 5 session0)
     = Inr (PyInt 150)
   \<and> trace (snd (change_volume linux_host 0 (Some 150) (Some (Member ALSA)) None False 5
                  session0))
     = [SetVolume \<lparr>vc_class = AlsaVolumeControl, vc_id = 1, vc_device = None\<rparr> 150]"
  by (simp add: eval_defs)

section \<open>The retry loop\<close>

lemma loop_sound:
  assumes "genre_playlist_loop catalog k = Some r"
  shows "catalog (snd r) = Some (fst r) \<and> k \<le> snd r \<and> (\<forall>i. k \<le> i \<and> i < snd r \<longrightarrow> catalog i = None)"
  using assms
proof (induction catalog k r
    rule: genre_playlist_loop.raw_induct[rotated 1, consumes 1, case_names step])
  case (step loop catalog k r)
  show ?case
  proof (cases "catalog k")
    case None
    with step(2) have "loop catalog (Suc k) = Some r" by simp
    from step(1)[OF this] show ?thesis
      using None by (metis Suc_leD Suc_leI le_neq_implies_less)
  next
    case (Some p)
    with step(2) show ?thesis by auto
  qed
qed

lemma loop_complete:
  assumes "catalog n = Some p" "k \<le> n" "\<forall>i. k \<le> i \<and> i < n \<longrightarrow> catalog i = None"
  shows "genre_playlist_loop catalog k = Some (p, n)"
  using assms
proof (induction "n - k" arbitrary: k)
  case 0
  then have "k = n" by simp
  with "0.prems" show ?case by (simp add: genre_playlist_loop.simps)
next
  case (Suc d)
  then have "k < n" by simp
  with Suc.prems have "catalog k = None" by simp
  moreover have "genre_playlist_loop catalog (Suc k) = Some (p, n)"
    using Suc by (intro Suc.hyps(1)) auto
  ultimately show ?case by (subst genre_playlist_loop.simps) simp
qed

text \<open>
  Claim C8. The retry loop of \<^verbatim>\<open>play_recommended_genre\<close> asks the catalog again and
  again until it gets a playlist. It returns if and only if some request is answered
  with a playlist; it then returns the first such answer; and no bound exists: for
  every \<open>N\<close> there is a catalog on which the loop is answered only by its request
  number \<open>N\<close>, after \<open>N\<close> empty answers.
\<close>

theorem genre_playlist_loop_returns_iff:
  "((\<exists>r. genre_playlist_loop catalog 0 = Some r) \<longleftrightarrow> (\<exists>n. catalog n \<noteq> None))
   \<and> (genre_playlist_loop catalog 0 = Some (p, n)
        \<longleftrightarrow> catalog n = Some p \<and> (\<forall>i<n. catalog i = None))
   \<and> genre_playlist_loop (\<lambda>i. if i < N then None else Some q) 0 = Some (q, N)"
proof (intro conjI)
  show "(\<exists>r. genre_playlist_loop catalog 0 = Some r) \<longleftrightarrow> (\<exists>n. catalog n \<noteq> None)"
  proof
    assume "\<exists>r. genre_playlist_loop catalog 0 = Some r"
    then obtain r where "genre_playlist_loop catalog 0 = Some r" ..
    from loop_sound[OF this] show "\<exists>n. catalog n \<noteq> None" by auto
  next
    assume "\<exists>n. catalog n \<noteq> None"
    then obtain m where m: "catalog m \<noteq> None" ..
    define n where "n = (LEAST i. catalog i \<noteq> None)"
    have n: "catalog n \<noteq> None" unfolding n_def using m by (rule LeastI)
    have "\<forall>i. 0 \<le> i \<and> i < n \<longrightarrow> catalog i = None"
      unfolding n_def using not_less_Least by blast
    moreover from n obtain p' where "catalog n = Some p'" by auto
    ultimately have "genre_playlist_loop catalog 0 = Some (p', n)"
      by (intro loop_complete) auto
    then show "\<exists>r. genre_playlist_loop catalog 0 = Some r" ..
  qed
next
  show "genre_playlist_loop catalog 0 = Some (p, n)
          \<longleftrightarrow> catalog n = Some p \<and> (\<forall>i<n. catalog i = None)"
  proof
    assume "genre_playlist_loop catalog 0 = Some (p, n)"
    from loop_sound[OF this] show "catalog n = Some p \<and> (\<forall>i<n. catalog i = None)" by simp
  next
    assume "catalog n = Some p \<and> (\<forall>i<n. catalog i = None)"
    then show "genre_playlist_loop catalog 0 = Some (p, n)"
      by (intro loop_complete) auto
  qed
next
  show "genre_playlist_loop (\<lambda>i. if i < N then None else Some q) 0 = Some (q, N)"
    by (rule loop_complete) auto
qed

theorem genre_playlist_loop_returns_iff_witness:
  "genre_playlist_loop (\<lambda>i. if i < (3::nat) then None else Some ''mix'') 0 = Some (''mix'', 3)
   \<and> genre_playlist_loop (\<lambda>i::nat. None :: string option) 0 = None"
proof
  show "genre_playlist_loop (\<lambda>i. if i < (3::nat) then None else Some ''mix'') 0
          = Some (''mix'', 3)"
    using genre_playlist_loop_returns_iff
            [of "\<lambda>i. if i < (3::nat) then None else Some ''mix''" "''mix''" 3 0 "''mix''"]
    by simp
next
  have "\<not> (\<exists>r. genre_playlist_loop (\<lambda>i::nat. None :: string option) 0 = Some r)"
    using genre_playlist_loop_returns_iff
            [of "\<lambda>i::nat. None :: string option" "''mix''" 0 0 "''mix''"]
    by simp
  then show "genre_playlist_loop (\<lambda>i::nat. None :: string option) 0 = None"
    by (cases "genre_playlist_loop (\<lambda>i::nat. None :: string option) 0") auto
qed

section \<open>The synchronous wrapper\<close>

text \<open>
  Claim C9. In the synchronous wrapper, \<^verbatim>\<open>change_volume\<close> called with the LINUX kind
  passes the assertion, matches none of the three branches, leaves the wrapper as it
  was (no property is read, no volume read or written) and returns \<^verbatim>\<open>None\<close>. For the
  member \<^verbatim>\<open>VolumeBackend.LINUX\<close> this holds on every interpreter. For the member's
  value, a string, it holds where the containment test of the enum does not raise on a
  string (distinct members having distinct values); where that test raises, the
  assertion itself raises \<^verbatim>\<open>TypeError\<close> for every string, and the wrapper is again left
  as it was.
\<close>

theorem wrapper_change_volume_linux_noop:
  "in_VolumeBackend w (Member LINUX) = Inr True
   \<and> \<not> names w (Member LINUX) ALSA \<and> \<not> names w (Member LINUX) APPLESCRIPT
   \<and> \<not> names w (Member LINUX) SPOTIFY
   \<and> Spotify_change_volume w val (Member LINUX) s = (Inr PyNone, s)
   \<and> (str_in_enum w \<noteq> StrRaisesTypeError
        \<and> enum_value w LINUX \<noteq> enum_value w ALSA
        \<and> enum_value w LINUX \<noteq> enum_value w APPLESCRIPT
        \<and> enum_value w LINUX \<noteq> enum_value w SPOTIFY \<longrightarrow>
          Spotify_change_volume w val (Value (enum_value w LINUX)) s = (Inr PyNone, s))
   \<and> (str_in_enum w = StrRaisesTypeError \<longrightarrow>
          Spotify_change_volume w val (Value v) s = (Inl TypeError, s))"
proof (intro conjI impI)
  show "in_VolumeBackend w (Member LINUX) = Inr True"
    by (simp add: in_VolumeBackend_def)
  show "\<not> names w (Member LINUX) ALSA" "\<not> names w (Member LINUX) APPLESCRIPT"
    "\<not> names w (Member LINUX) SPOTIFY"
    by (simp_all add: names_def)
  show "Spotify_change_volume w val (Member LINUX) s = (Inr PyNone, s)"
    by (simp add: Spotify_change_volume_def in_VolumeBackend_def names_def)
next
  assume a: "str_in_enum w \<noteq> StrRaisesTypeError
        \<and> enum_value w LINUX \<noteq> enum_value w ALSA
        \<and> enum_value w LINUX \<noteq> enum_value w APPLESCRIPT
        \<and> enum_value w LINUX \<noteq> enum_value w SPOTIFY"
  then show "Spotify_change_volume w val (Value (enum_value w LINUX)) s = (Inr PyNone, s)"
    by (cases "str_in_enum w")
      (simp_all add: Spotify_change_volume_def in_VolumeBackend_def in_values_def names_def
        members_def)
next
  assume "str_in_enum w = StrRaisesTypeError"
  then show "Spotify_change_volume w val (Value v) s = (Inl TypeError, s)"
    by (simp add: Spotify_change_volume_def in_VolumeBackend_def)
qed

theorem wrapper_change_volume_linux_noop_witness:
  "Spotify_change_volume linux_host 1 (Member LINUX) wrapper0 = (Inr PyNone, wrapper0)
   \<and> Spotify_change_volume linux_host_py311 1 (Member LINUX) wrapper0 = (Inr PyNone, wrapper0)
   \<and> str_in_enum linux_host \<noteq> StrRaisesTypeError
   \<and> Spotify_change_volume linux_host 1 (Value ''linux'') wrapper0 = (Inr PyNone, wrapper0)
   \<and> str_in_enum linux_host_py311 = StrRaisesTypeError
   \<and> Spotify_change_volume linux_host_py311 1 (Value ''linux'') wrapper0
       = (Inl TypeError, wrapper0)"
  using wrapper_change_volume_linux_noop[of linux_host 1 wrapper0 "''linux''"]
        wrapper_change_volume_linux_noop[of linux_host_py311 1 wrapper0 "''linux''"]
  by (simp add: linux_host_py311_def linux_host_def host_def enum_values_def)


lemma rd_device [simp]:
  "resolved_device w (snd (Spotify_device w s)) = resolved_device w s"
  by (simp add: Spotify_device_def resolved_device_def split: option.splits sum.splits)

lemma rd_frame [simp]:
  "resolved_device w (s\<lparr>wr_trace := tr\<rparr>) = resolved_device w s"
  "resolved_device w (s\<lparr>wr_next_obj := n\<rparr>) = resolved_device w s"
  "resolved_device w (s\<lparr>k_applescript := a\<rparr>) = resolved_device w s"
  "resolved_device w (s\<lparr>k_linux := l\<rparr>) = resolved_device w s"
  "resolved_device w (s\<lparr>k_alsa := al\<rparr>) = resolved_device w s"
  "resolved_device w (s\<lparr>k_spotify := sp\<rparr>) = resolved_device w s"
  by (simp_all add: resolved_device_def split: option.splits)

lemma rd_construct [simp]:
  "resolved_device w (snd (wr_construct w cls dev s)) = resolved_device w s"
  by (simp add: wr_construct_def split: option.splits)




lemma rd_spotify [simp]:
  "resolved_device w (snd (Spotify_spotify_volume_control w s)) = resolved_device w s"
proof -
  obtain r s1 where d: "Spotify_device w s = (r, s1)" by (cases "Spotify_device w s")
  from rd_device[of w s] d have "resolved_device w s1 = resolved_device w s" by simp
  with d show ?thesis
    by (simp add: Spotify_spotify_volume_control_def wr_construct_def
        split: option.splits sum.splits)
qed

lemma rd_pin [simp]:
  "resolved_device w (snd (pin_spotify w volume s)) = resolved_device w s"
proof -
  obtain r s1 where d: "Spotify_spotify_volume_control w s = (r, s1)"
    by (cases "Spotify_spotify_volume_control w s")
  from rd_spotify[of w s] d have "resolved_device w s1 = resolved_device w s" by simp
  with d show ?thesis
    by (simp add: pin_spotify_def wr_put_volume_def split: sum.splits)
qed

lemma rd_switch [simp]:
  "resolved_device w (snd (switch_audio_device w vb d s)) = resolved_device w s"
  by (simp add: switch_audio_device_def)





end
